theory Spec2Isabelle
  imports Complex_Main "HOL-Library.Monad_Syntax"
begin

section \<open>Conventions\<close>

text \<open>
  A shallow embedding of the classification and priority-scoring core of the e-mail
  server: package \<open>config\<close> (\<open>src/unnamed/part_005\<close>), the classifier and the
  priority engine of package \<open>ai\<close> (\<open>src/unnamed/part_001\<close>) and the parts of
  package \<open>storage\<close> that they call (\<open>src/storage/database.go\<close>, \<open>schema.sql\<close>).

  \<^item> A Go \<open>string\<close> is a byte sequence: \<open>string\<close> (a \<open>char list\<close>); \<open>len\<close> is \<open>length\<close>.
  \<^item> A Go \<open>int\<close> is 64 bits wide (the \<open>amd64\<close> port): a value of type \<open>int\<close> in
    \<open>[-2^63, 2^63)\<close>, and the arithmetic of the priority engine wraps around
    (\<open>wrap64\<close>). Lengths and positions of strings are far from the bounds and are
    computed in \<open>int\<close> and \<open>nat\<close> directly.
  \<^item> A \<open>float64\<close> of the priority engine is an IEEE 754 binary64 number (type
    \<open>float64\<close> below): every operation is rounded to nearest, ties to even, on its
    own, as the \<open>gc\<close> compiler evaluates it on \<open>amd64\<close> (no fused multiply-add at
    the default \<open>GOAMD64=v1\<close>). The conversion \<open>int(x)\<close> truncates towards zero; for
    a value outside the range of \<open>int\<close>, where the language leaves the result to the
    implementation, it is \<open>-2^63\<close>, the result of the \<open>amd64\<close> instruction
    \<open>CVTTSD2SQ\<close>. The confidence of a rule or a result, which the code only copies
    and compares, is the real number that the \<open>float64\<close> denotes.
  \<^item> A run-time panic (a slice or index expression out of range) is the value \<open>None\<close>
    of the option monad; a Go \<open>error\<close> result is a value of type \<open>error option\<close>
    (\<open>None\<close> is \<open>nil\<close>).
  \<^item> A \<open>time.Time\<close> is an integer counting nanoseconds, a \<open>time.Duration\<close> a
    64-bit integer counting nanoseconds; the difference of two times saturates at the
    bounds of \<open>time.Duration\<close>. The clock is read once per call (the parameter
    \<open>now\<close>).
  \<^item> A pointer that the code dereferences without a test (the message, the
    configuration, the store and its connection, the cache) is not \<open>nil\<close>; the one
    pointer that the code tests, the classifier of the engine, is an option.
  \<^item> A Go map that the code ranges over is an association list with distinct keys, in
    the order of the iteration (which Go leaves unspecified); a map that is only looked
    up or updated is a HOL map.
\<close>

section \<open>Machine arithmetic\<close>

subsection \<open>64-bit integers\<close>

text \<open>
  The value that a 64-bit two's-complement register holds for the integer \<open>x\<close>, and
  Go's \<open>+\<close>, \<open>-\<close> and \<open>*\<close> on \<open>int\<close> and \<open>time.Duration\<close>.
\<close>

definition wrap64 :: "int \<Rightarrow> int" where
  "wrap64 x = (x + 2 ^ 63) mod 2 ^ 64 - 2 ^ 63"

definition go_add :: "int \<Rightarrow> int \<Rightarrow> int" where
  "go_add a b = wrap64 (a + b)"

definition go_sub :: "int \<Rightarrow> int \<Rightarrow> int" where
  "go_sub a b = wrap64 (a - b)"

definition go_mul :: "int \<Rightarrow> int \<Rightarrow> int" where
  "go_mul a b = wrap64 (a * b)"

text \<open>
  Go's integer division \<open>a / b\<close> and remainder \<open>a % b\<close>: the quotient is truncated
  towards zero. The code divides by the constants \<open>100\<close> and \<open>time.Hour\<close> only.
\<close>

definition go_quot :: "int \<Rightarrow> int \<Rightarrow> int" where
  "go_quot a b = sgn a * sgn b * (\<bar>a\<bar> div \<bar>b\<bar>)"

definition go_rem :: "int \<Rightarrow> int \<Rightarrow> int" where
  "go_rem a b = a - b * go_quot a b"

subsection \<open>Time\<close>

type_synonym time = int
type_synonym duration = int

definition Hour :: duration where
  "Hour = 3600000000000"

definition minDuration :: duration where
  "minDuration = - (2 ^ 63)"

definition maxDuration :: duration where
  "maxDuration = 2 ^ 63 - 1"

text \<open>
  \<open>time.Since(t)\<close>, with the clock reading \<open>now\<close>: \<open>Time.Sub\<close> returns the
  difference, or the least or the greatest \<open>Duration\<close> if the difference does not fit.
\<close>

definition Since :: "time \<Rightarrow> time \<Rightarrow> duration" where
  "Since now t =
     (if now - t < minDuration then minDuration
      else if maxDuration < now - t then maxDuration
      else now - t)"

subsection \<open>float64\<close>

text \<open>
  An IEEE 754 binary64 value: a finite number (\<open>Finite 0\<close> is \<open>+0\<close>), the negative
  zero, an infinity or a NaN. The finite values that the operations below produce are
  the representable ones: \<open>round64\<close> rounds a rational number to the nearest number
  \<open>m * 2^(e - 52)\<close> with \<open>m \<le> 2^53\<close> and \<open>-1022 \<le> e\<close>, ties to the even \<open>m\<close>, and to an
  infinity if that number is \<open>2^1024\<close> or more, which is the case if \<open>1024 \<le> e\<close> or
  \<open>e = 1023\<close> and \<open>m = 2^53\<close>.
\<close>

datatype float64 = Finite rat | NegZero | PosInf | NegInf | NaN

definition pow2 :: "int \<Rightarrow> rat" where
  "pow2 e = (if 0 \<le> e then 2 ^ nat e else 1 / 2 ^ nat (- e))"

text \<open>The number of binary digits of \<open>n\<close>.\<close>

function bit_length :: "int \<Rightarrow> int" where
  "bit_length n = (if n \<le> 0 then 0 else 1 + bit_length (n div 2))"
  by pat_completeness auto

termination
  by (relation "measure nat") auto

declare bit_length.simps [simp del]

text \<open>\<open>ilog2 a\<close> is the integer \<open>k\<close> with \<open>2^k \<le> a < 2^(k + 1)\<close>, for \<open>0 < a\<close>.\<close>

definition ilog2 :: "rat \<Rightarrow> int" where
  "ilog2 a =
     (let (n, d) = quotient_of a;
          k = bit_length n - bit_length d
      in if pow2 k \<le> a then k else k - 1)"

definition round_half_even :: "rat \<Rightarrow> int" where
  "round_half_even y =
     (let f = \<lfloor>y\<rfloor>; d = y - of_int f
      in if d < 1 / 2 then f
         else if 1 / 2 < d then f + 1
         else if even f then f else f + 1)"

definition round64 :: "rat \<Rightarrow> float64" where
  "round64 x =
     (if x = 0 then Finite 0
      else
        (let a = \<bar>x\<bar>;
             e = max (- 1022) (ilog2 a);
             q = pow2 (e - 52);
             m = round_half_even (a / q);
             r = of_int m * q
         in if 1024 \<le> e \<or> (e = 1023 \<and> m = 2 ^ 53)
            then (if 0 < x then PosInf else NegInf)
            else if r = 0 then (if 0 < x then Finite 0 else NegZero)
            else Finite (if 0 < x then r else - r)))"

text \<open>The parts of a value: its sign bit, its class and, if it is finite, its number.\<close>

fun fsign :: "float64 \<Rightarrow> bool" where
  "fsign (Finite r) = (r < 0)"
| "fsign NegZero = True"
| "fsign PosInf = False"
| "fsign NegInf = True"
| "fsign NaN = False"

fun fval :: "float64 \<Rightarrow> rat" where
  "fval (Finite r) = r"
| "fval NegZero = 0"
| "fval PosInf = 0"
| "fval NegInf = 0"
| "fval NaN = 0"

definition is_inf :: "float64 \<Rightarrow> bool" where
  "is_inf x = (x = PosInf \<or> x = NegInf)"

definition is_zero :: "float64 \<Rightarrow> bool" where
  "is_zero x = (x = Finite 0 \<or> x = NegZero)"

definition inf_of :: "bool \<Rightarrow> float64" where
  "inf_of negative = (if negative then NegInf else PosInf)"

definition zero_of :: "bool \<Rightarrow> float64" where
  "zero_of negative = (if negative then NegZero else Finite 0)"

text \<open>
  The operations \<open>x + y\<close>, \<open>x - y\<close>, \<open>x * y\<close>, \<open>x / y\<close> and \<open>x < y\<close> of IEEE 754. An exact
  sum that is zero is \<open>+0\<close>, unless both operands are \<open>-0\<close>.
\<close>

definition fadd :: "float64 \<Rightarrow> float64 \<Rightarrow> float64" where
  "fadd x y =
     (if x = NaN \<or> y = NaN then NaN
      else if is_inf x then (if is_inf y \<and> x \<noteq> y then NaN else x)
      else if is_inf y then y
      else if fval x + fval y = 0 then zero_of (x = NegZero \<and> y = NegZero)
      else round64 (fval x + fval y))"

definition fneg :: "float64 \<Rightarrow> float64" where
  "fneg x =
     (if x = NaN then NaN
      else if is_inf x then inf_of (\<not> fsign x)
      else if is_zero x then zero_of (\<not> fsign x)
      else Finite (- fval x))"

definition fsub :: "float64 \<Rightarrow> float64 \<Rightarrow> float64" where
  "fsub x y = fadd x (fneg y)"

definition fmul :: "float64 \<Rightarrow> float64 \<Rightarrow> float64" where
  "fmul x y =
     (if x = NaN \<or> y = NaN then NaN
      else if is_inf x \<or> is_inf y
      then (if is_zero x \<or> is_zero y then NaN else inf_of (fsign x \<noteq> fsign y))
      else if is_zero x \<or> is_zero y then zero_of (fsign x \<noteq> fsign y)
      else round64 (fval x * fval y))"

definition fdiv :: "float64 \<Rightarrow> float64 \<Rightarrow> float64" where
  "fdiv x y =
     (if x = NaN \<or> y = NaN then NaN
      else if is_inf x then (if is_inf y then NaN else inf_of (fsign x \<noteq> fsign y))
      else if is_inf y then zero_of (fsign x \<noteq> fsign y)
      else if is_zero y then (if is_zero x then NaN else inf_of (fsign x \<noteq> fsign y))
      else if is_zero x then zero_of (fsign x \<noteq> fsign y)
      else round64 (fval x / fval y))"

definition flt :: "float64 \<Rightarrow> float64 \<Rightarrow> bool" where
  "flt x y =
     (if x = NaN \<or> y = NaN then False
      else if x = NegInf then y \<noteq> NegInf
      else if y = PosInf then x \<noteq> PosInf
      else if x = PosInf \<or> y = NegInf then False
      else fval x < fval y)"

text \<open>The conversions \<open>float64(n)\<close> of an integer and \<open>int(x)\<close> of a \<open>float64\<close>.\<close>

definition float64_of_int :: "int \<Rightarrow> float64" where
  "float64_of_int n = round64 (of_int n)"

definition int_of_float64 :: "float64 \<Rightarrow> int" where
  "int_of_float64 x =
     (if x = NaN \<or> is_inf x then - (2 ^ 63)
      else
        (let t = (if 0 \<le> fval x then \<lfloor>fval x\<rfloor> else \<lceil>fval x\<rceil>)
         in if - (2 ^ 63) \<le> t \<and> t < 2 ^ 63 then t else - (2 ^ 63)))"

text \<open>
  \<open>Duration.Hours()\<close>: the whole hours and the remaining nanoseconds are converted
  separately,
  \<open>hour := d / Hour; nsec := d % Hour; return float64(hour) + float64(nsec)/(60*60*1e9)\<close>.
\<close>

definition Hours :: "duration \<Rightarrow> float64" where
  "Hours d =
     (let hour = go_quot d Hour; nsec = go_rem d Hour
      in fadd (float64_of_int hour) (fdiv (float64_of_int nsec) (Finite 3600000000000)))"

text \<open>
  The functions of the Go standard library that the code calls and whose results are
  not computed here are parameters of the model.
\<close>

record stdlib =
  strings_ToLower :: "string \<Rightarrow> string"
  regexp_Compile :: "string \<Rightarrow> (string \<Rightarrow> bool) option"
  md5_hex :: "string \<Rightarrow> string"
  format_RFC3339 :: "time \<Rightarrow> string"

text \<open>\<open>strings.Contains(s, substr)\<close>: \<open>substr\<close> occurs in \<open>s\<close> as a block of bytes.\<close>

fun has_prefix :: "string \<Rightarrow> string \<Rightarrow> bool" where
  "has_prefix s [] = True"
| "has_prefix [] (y # ys) = False"
| "has_prefix (x # xs) (y # ys) = (x = y \<and> has_prefix xs ys)"

fun strings_Contains :: "string \<Rightarrow> string \<Rightarrow> bool" where
  "strings_Contains [] substr = (substr = [])"
| "strings_Contains (x # xs) substr =
     (has_prefix (x # xs) substr \<or> strings_Contains xs substr)"

section \<open>Package config\<close>

subsection \<open>Data\<close>

record TimeDecayConfig =
  Enabled :: bool
  MaxAgeHours :: int
  DecayRate :: float64

record PriorityRules =
  VIPSenders :: "string list"
  ImportantDomains :: "string list"
  UrgentKeywords :: "string list"
  IgnoreSenders :: "string list"
  IgnoreSubjects :: "string list"
  CategoryPriority :: "(string \<times> int) list"
  TimeDecay :: TimeDecayConfig

record Condition =
  Field :: string
  Operator :: string
  Value :: string
  Values :: "string list"

record ClassificationRule =
  Description :: string
  Conditions :: "Condition list"
  PriorityBoost :: int
  Confidence :: real
  Tags :: "string list"

text \<open>
  \<open>ClassificationRules\<close> is a Go map from category name to rule; the classifier ranges
  over it, so it is the list of its entries in iteration order.
\<close>

record PriorityConfig =
  PriorityRules :: PriorityRules
  ClassificationRules :: "(string \<times> ClassificationRule) list"

subsection \<open>String helpers\<close>

text \<open>\<open>toLower\<close>: bytes \<open>'A'\<close> to \<open>'Z'\<close> are increased by 32, every other byte is kept.\<close>

definition toLower_byte :: "char \<Rightarrow> char" where
  "toLower_byte c =
     (if (65::nat) \<le> of_char c \<and> of_char c \<le> (90::nat)
      then char_of (of_char c + (32::nat)) else c)"

definition toLower :: "string \<Rightarrow> string" where
  "toLower s = map toLower_byte s"

text \<open>
  The slice expression \<open>s[lo:hi]\<close>. It panics unless \<open>0 \<le> lo \<le> hi \<le> len(s)\<close>.
\<close>

definition go_slice :: "string \<Rightarrow> int \<Rightarrow> int \<Rightarrow> string option" where
  "go_slice s lo hi =
     (if 0 \<le> lo \<and> lo \<le> hi \<and> hi \<le> int (length s)
      then Some (take (nat (hi - lo)) (drop (nat lo) s)) else None)"

text \<open>The index expression \<open>s[i]\<close>; it panics unless \<open>0 \<le> i < len(s)\<close>.\<close>

definition go_index :: "string \<Rightarrow> int \<Rightarrow> char option" where
  "go_index s i = (if 0 \<le> i \<and> i < int (length s) then Some (s ! nat i) else None)"

text \<open>
  \<open>indexOf\<close>: the loop \<open>for i := 0; i <= len(s)-len(substr); i++\<close>, entered at \<open>i\<close>.
  The result is the first index at which the slice equals \<open>substr\<close>, or \<open>-1\<close>.
\<close>

function indexOf_loop :: "string \<Rightarrow> string \<Rightarrow> nat \<Rightarrow> int option" where
  "indexOf_loop s substr i =
     (if int i \<le> int (length s) - int (length substr)
      then (case go_slice s (int i) (int i + int (length substr)) of
              None \<Rightarrow> None
            | Some w \<Rightarrow> if w = substr then Some (int i) else indexOf_loop s substr (Suc i))
      else Some (- 1))"
  by pat_completeness auto
termination
  by (relation "measure (\<lambda>(s, substr, i). Suc (length s) - i)") auto

definition indexOf :: "string \<Rightarrow> string \<Rightarrow> int option" where
  "indexOf s substr = indexOf_loop s substr 0"

text \<open>\<open>contains\<close>: \<open>len(s) >= len(substr) && indexOf(s, substr) >= 0\<close>.\<close>

definition contains :: "string \<Rightarrow> string \<Rightarrow> bool option" where
  "contains s substr =
     (if length substr \<le> length s
      then do { i \<leftarrow> indexOf s substr; Some (0 \<le> i) }
      else Some False)"

text \<open>
  The conversion \<open>string(b)\<close> of a byte, as \<open>matchPattern\<close> uses it: the UTF-8
  encoding of the code point \<open>b\<close>, which is one byte below 128 and two bytes from there.
\<close>

definition string_of_byte :: "char \<Rightarrow> string" where
  "string_of_byte c =
     (if of_char c < (128::nat) then [c]
      else [char_of (192 + of_char c div (64::nat)), char_of (128 + of_char c mod (64::nat))])"

text \<open>
  The first loop of \<open>matchPattern\<close>: the pattern is cut at every \<open>*\<close>; \<open>current\<close>
  collects the bytes since the last one and empty pieces are dropped.
\<close>

fun split_parts :: "string \<Rightarrow> string \<Rightarrow> string list \<Rightarrow> string list" where
  "split_parts [] current parts = (if current \<noteq> [] then parts @ [current] else parts)"
| "split_parts (c # cs) current parts =
     (if c = CHR ''*''
      then (if current \<noteq> [] then split_parts cs [] (parts @ [current])
            else split_parts cs current parts)
      else split_parts cs (current @ string_of_byte c) parts)"

text \<open>The second loop: every piece must occur in \<open>s\<close> after the previous one.\<close>

fun parts_in_order :: "string \<Rightarrow> int \<Rightarrow> string list \<Rightarrow> bool option" where
  "parts_in_order s pos [] = Some True"
| "parts_in_order s pos (part # parts) =
     do { rest \<leftarrow> go_slice s pos (int (length s));
          idx \<leftarrow> indexOf rest part;
          if idx = - 1 then Some False
          else parts_in_order s (pos + (idx + int (length part))) parts }"

definition matchPattern :: "string \<Rightarrow> string \<Rightarrow> bool option" where
  "matchPattern s pattern =
     (if pattern = ''*'' then Some True
      else do {
        star \<leftarrow> indexOf pattern ''*'';
        if star = - 1 then Some (s = pattern)
        else do {
          starts \<leftarrow> (if 0 < length pattern
                     then do { c \<leftarrow> go_index pattern 0; Some (c = CHR ''*'') }
                     else Some False);
          if starts
          then do {
            sfx \<leftarrow> go_slice pattern 1 (int (length pattern));
            if length sfx \<le> length s
            then do { e \<leftarrow> go_slice s (int (length s) - int (length sfx)) (int (length s));
                      Some (e = sfx) }
            else Some False }
          else do {
            ends \<leftarrow> (if 0 < length pattern
                     then do { c \<leftarrow> go_index pattern (int (length pattern) - 1);
                               Some (c = CHR ''*'') }
                     else Some False);
            if ends
            then do {
              pfx \<leftarrow> go_slice pattern 0 (int (length pattern) - 1);
              if length pfx \<le> length s
              then do { b \<leftarrow> go_slice s 0 (int (length pfx)); Some (b = pfx) }
              else Some False }
            else parts_in_order s 0 (split_parts pattern [] []) } } })"

text \<open>\<open>ExtractDomain\<close>: what follows the first \<open>@\<close>, or the empty string.\<close>

definition ExtractDomain :: "string \<Rightarrow> string option" where
  "ExtractDomain email =
     do { atIdx \<leftarrow> indexOf email ''@'';
          if atIdx = - 1 then Some []
          else go_slice email (atIdx + 1) (int (length email)) }"

subsection \<open>Queries on the configuration\<close>

definition IsVIPSender :: "PriorityConfig \<Rightarrow> string \<Rightarrow> bool" where
  "IsVIPSender pc email = list_ex (\<lambda>vip. vip = email) (VIPSenders (PriorityRules pc))"

definition IsImportantDomain :: "PriorityConfig \<Rightarrow> string \<Rightarrow> bool" where
  "IsImportantDomain pc domain =
     list_ex (\<lambda>d. d = domain) (ImportantDomains (PriorityRules pc))"

text \<open>The loop of \<open>HasUrgentKeyword\<close> over the keywords, and the function.\<close>

fun urgent_loop :: "string \<Rightarrow> string list \<Rightarrow> (bool \<times> string) option" where
  "urgent_loop textLower [] = Some (False, [])"
| "urgent_loop textLower (keyword # ks) =
     do { b \<leftarrow> contains textLower (toLower keyword);
          if b then Some (True, keyword) else urgent_loop textLower ks }"

definition HasUrgentKeyword :: "PriorityConfig \<Rightarrow> string \<Rightarrow> (bool \<times> string) option" where
  "HasUrgentKeyword pc text = urgent_loop (toLower text) (UrgentKeywords (PriorityRules pc))"

fun ignore_sender_loop :: "string \<Rightarrow> string list \<Rightarrow> bool option" where
  "ignore_sender_loop emailLower [] = Some False"
| "ignore_sender_loop emailLower (pattern # ps) =
     do { b \<leftarrow> matchPattern emailLower (toLower pattern);
          if b then Some True else ignore_sender_loop emailLower ps }"

definition ShouldIgnoreSender :: "PriorityConfig \<Rightarrow> string \<Rightarrow> bool option" where
  "ShouldIgnoreSender pc email =
     ignore_sender_loop (toLower email) (IgnoreSenders (PriorityRules pc))"

fun ignore_subject_loop :: "string \<Rightarrow> string list \<Rightarrow> bool option" where
  "ignore_subject_loop subjectLower [] = Some False"
| "ignore_subject_loop subjectLower (keyword # ks) =
     do { b \<leftarrow> contains subjectLower (toLower keyword);
          if b then Some True else ignore_subject_loop subjectLower ks }"

definition ShouldIgnoreSubject :: "PriorityConfig \<Rightarrow> string \<Rightarrow> bool option" where
  "ShouldIgnoreSubject pc subject =
     ignore_subject_loop (toLower subject) (IgnoreSubjects (PriorityRules pc))"

definition GetCategoryPriority :: "PriorityConfig \<Rightarrow> string \<Rightarrow> int" where
  "GetCategoryPriority pc category =
     (case map_of (CategoryPriority (PriorityRules pc)) category of
        Some priority \<Rightarrow> priority
      | None \<Rightarrow> 0)"

subsection \<open>Validation\<close>

text \<open>
  \<open>Validate\<close> returns \<open>nil\<close> exactly when the predicates below hold; the loader
  rejects every other configuration. The error values themselves are not modelled.
\<close>

definition Condition_Validate :: "stdlib \<Rightarrow> Condition \<Rightarrow> bool" where
  "Condition_Validate L c =
     (Field c \<in> set [''from'', ''subject'', ''body'', ''headers'', ''to''] \<and>
      Operator c \<in> set [''contains'', ''contains_any'', ''regex'', ''domain_in'',
                          ''domain_not_in''] \<and>
      \<not> (Operator c = ''regex'' \<and> Value c \<noteq> [] \<and> regexp_Compile L (Value c) = None))"

definition Validate :: "stdlib \<Rightarrow> PriorityConfig \<Rightarrow> bool" where
  "Validate L pc =
     (list_all (\<lambda>(category, priority). \<not> (priority < - 100 \<or> priority > 100))
        (CategoryPriority (PriorityRules pc)) \<and>
      list_all (\<lambda>(name, rule).
          \<not> (Confidence rule < 0 \<or> Confidence rule > 1) \<and>
          list_all (Condition_Validate L) (Conditions rule))
        (ClassificationRules pc))"

section \<open>Package storage\<close>

text \<open>
  The store is an SQLite database with the tables of \<open>schema.sql\<close>. A table with a
  primary key is a map from the key to the row. For the three functions below, a
  statement that fails for a reason outside the model (the connection, the disk) has
  the effect of an absent row (a query) or of a refused row (an insertion). The
  connection is taken to be open: \<open>New\<close> as it stands leaves it unset (the call of
  \<open>sql.Open\<close> is commented out until the SQLite driver is available), and the
  model describes the store once that call is in place.
\<close>

datatype error =
  NotFound string
| ConstraintFailed string

record Classification =
  EmailID_s :: string
  Category_s :: string
  Confidence_s :: real
  Method_s :: string
  Tags_s :: "string list"
  Reasoning_s :: string
  ClassifiedAt :: time

text \<open>A row of table \<open>classifications\<close>; column \<open>tags\<close> is a text.\<close>

record classifications_row =
  category_col :: string
  confidence_col :: real
  method_col :: string
  tags_col :: string
  reasoning_col :: string
  classified_at_col :: time

record SenderAnalytics =
  EmailAddress :: string
  AccountID :: string
  TotalEmails :: int
  ReadCount :: int
  ReplyCount :: int
  AvgResponseTime :: int
  LastInteraction :: time
  EngagementScore :: int
  IsVIP :: bool

record Database =
  classifications :: "string \<rightharpoonup> classifications_row"
  sender_analytics :: "string \<rightharpoonup> SenderAnalytics"

text \<open>
  The \<open>CHECK\<close> constraints of table \<open>classifications\<close>:
  \<open>confidence >= 0 AND confidence <= 1\<close> and \<open>method IN ('rules', 'ai', 'hybrid')\<close>.
\<close>

definition classifications_check :: "Classification \<Rightarrow> bool" where
  "classifications_check c =
     (0 \<le> Confidence_s c \<and> Confidence_s c \<le> 1 \<and>
      Method_s c \<in> set [''rules'', ''ai'', ''hybrid''])"

text \<open>
  The \<open>CHECK\<close> constraint of table \<open>sender_analytics\<close>:
  \<open>engagement_score >= 0 AND engagement_score <= 100\<close>.
\<close>

definition sender_analytics_check :: "SenderAnalytics \<Rightarrow> bool" where
  "sender_analytics_check sa = (0 \<le> EngagementScore sa \<and> EngagementScore sa \<le> 100)"

text \<open>
  \<open>SaveClassification\<close>: \<open>INSERT OR REPLACE\<close> of one row; only the first tag is
  written. \<open>classified_at\<close> takes its default, the current time.
\<close>

definition SaveClassification_db ::
  "Database \<Rightarrow> time \<Rightarrow> Classification \<Rightarrow> error option \<times> Database" where
  "SaveClassification_db d now c =
     (let tagsJSON = (if 0 < length (Tags_s c) then ''[\"'' @ hd (Tags_s c) @ ''\"]''
                      else ''[]'')
      in if classifications_check c
         then (None,
               d\<lparr>classifications := (classifications d)(EmailID_s c \<mapsto>
                    \<lparr>category_col = Category_s c, confidence_col = Confidence_s c,
                     method_col = Method_s c, tags_col = tagsJSON,
                     reasoning_col = Reasoning_s c, classified_at_col = now\<rparr>)\<rparr>)
         else (Some (ConstraintFailed ''classifications''), d))"

definition GetClassification_db :: "Database \<Rightarrow> string \<Rightarrow> error + Classification" where
  "GetClassification_db d emailID =
     (case classifications d emailID of
        None \<Rightarrow> Inl (NotFound emailID)
      | Some r \<Rightarrow>
          Inr \<lparr>EmailID_s = emailID, Category_s = category_col r,
               Confidence_s = confidence_col r, Method_s = method_col r, Tags_s = [],
               Reasoning_s = reasoning_col r, ClassifiedAt = classified_at_col r\<rparr>)"

definition GetSenderAnalytics :: "Database \<Rightarrow> string \<Rightarrow> error + SenderAnalytics" where
  "GetSenderAnalytics d emailAddress =
     (case sender_analytics d emailAddress of
        None \<Rightarrow> Inl (NotFound emailAddress)
      | Some sa \<Rightarrow> Inr sa)"

section \<open>Package ai: the classifier\<close>

subsection \<open>Data\<close>

record ClassificationResult =
  EmailID :: string
  Category :: string
  Confidence_r :: real
  Method :: string
  Tags_r :: "string list"
  Reasoning :: string
  Timestamp :: time

text \<open>\<open>Headers\<close> is a Go map that \<open>getAllHeaders\<close> ranges over.\<close>

record Email =
  ID :: string
  From :: string
  To :: string
  Subject :: string
  Body :: string
  BodySnippet :: string
  Headers :: "(string \<times> string) list"
  ReceivedAt :: time

record Classifier =
  config :: PriorityConfig
  db :: Database
  cache :: "string \<rightharpoonup> ClassificationResult"

definition NewClassifier :: "PriorityConfig \<Rightarrow> Database \<Rightarrow> Classifier" where
  "NewClassifier cfg d = \<lparr>config = cfg, db = d, cache = Map.empty\<rparr>"

subsection \<open>Helper functions\<close>

definition getCacheKey :: "stdlib \<Rightarrow> Email \<Rightarrow> string" where
  "getCacheKey L email =
     md5_hex L (From email @ '':'' @ Subject email @ '':'' @
                format_RFC3339 L (ReceivedAt email))"

text \<open>\<open>strings.Join(elems, sep)\<close>.\<close>

fun strings_Join :: "string list \<Rightarrow> string \<Rightarrow> string" where
  "strings_Join [] sep = []"
| "strings_Join [x] sep = x"
| "strings_Join (x # y # ys) sep = x @ sep @ strings_Join (y # ys) sep"

definition getAllHeaders :: "Email \<Rightarrow> string" where
  "getAllHeaders email =
     strings_Join (map (\<lambda>(key, val). key @ '': '' @ val) (Headers email)) [CHR 0x0A]"

definition containsIgnoreCase :: "stdlib \<Rightarrow> string \<Rightarrow> string \<Rightarrow> bool" where
  "containsIgnoreCase L s substr =
     strings_Contains (strings_ToLower L s) (strings_ToLower L substr)"

definition containsAny :: "string \<Rightarrow> string list \<Rightarrow> bool" where
  "containsAny s substrings = list_ex (\<lambda>substr. strings_Contains s substr) substrings"

subsection \<open>Rules\<close>

definition matchesCondition :: "stdlib \<Rightarrow> Email \<Rightarrow> Condition \<Rightarrow> bool option" where
  "matchesCondition L email cond =
     (case (if Field cond = ''from'' then Some (From email)
            else if Field cond = ''to'' then Some (To email)
            else if Field cond = ''subject'' then Some (Subject email)
            else if Field cond = ''body'' then Some (BodySnippet email)
            else if Field cond = ''headers'' then Some (getAllHeaders email)
            else None) of
        None \<Rightarrow> Some False
      | Some fieldValue \<Rightarrow>
          if Operator cond = ''contains''
          then Some (containsIgnoreCase L fieldValue (Value cond))
          else if Operator cond = ''contains_any''
          then Some (list_ex (\<lambda>val. containsIgnoreCase L fieldValue val) (Values cond))
          else if Operator cond = ''regex''
          then (case regexp_Compile L (Value cond) of
                  None \<Rightarrow> Some False
                | Some re \<Rightarrow> Some (re fieldValue))
          else if Operator cond = ''domain_in''
          then do { domain \<leftarrow> ExtractDomain fieldValue;
                    Some (list_ex (\<lambda>allowedDomain. domain = allowedDomain) (Values cond)) }
          else if Operator cond = ''domain_not_in''
          then do { domain \<leftarrow> ExtractDomain fieldValue;
                    Some (\<not> list_ex (\<lambda>excludedDomain. domain = excludedDomain)
                                 (Values cond)) }
          else Some False)"

text \<open>\<open>matchesRule\<close>: the loop over the conditions stops at the first that fails.\<close>

fun conditions_loop :: "stdlib \<Rightarrow> Email \<Rightarrow> Condition list \<Rightarrow> bool option" where
  "conditions_loop L email [] = Some True"
| "conditions_loop L email (condition # cs) =
     do { b \<leftarrow> matchesCondition L email condition;
          if \<not> b then Some False else conditions_loop L email cs }"

definition matchesRule :: "stdlib \<Rightarrow> Email \<Rightarrow> ClassificationRule \<Rightarrow> bool option" where
  "matchesRule L email rule = conditions_loop L email (Conditions rule)"

definition defaultClassification :: "stdlib \<Rightarrow> time \<Rightarrow> Email \<Rightarrow> ClassificationResult" where
  "defaultClassification L now email =
     (let subjectLower = strings_ToLower L (Subject email);
          fromLower = strings_ToLower L (From email);
          (category, reasoning, confidence) =
            (if containsAny fromLower [''noreply@'', ''no-reply@'', ''notifications@'']
             then (''newsletters'', ''Automated sender detected'', 0.7)
             else if containsAny subjectLower [''newsletter'', ''subscription'', ''digest'']
             then (''newsletters'', ''Newsletter keywords in subject'', 0.75)
             else if containsAny subjectLower
                       [''sale'', ''offer'', ''discount'', ''% off'', ''deal'']
             then (''promotions'', ''Promotional keywords detected'', 0.80)
             else if containsAny subjectLower [''invoice'', ''payment'', ''receipt'', ''bill'']
             then (''invoice'', ''Financial keywords detected'', 0.85)
             else if containsAny subjectLower [''urgent'', ''asap'', ''important'', ''critical'']
             then (''urgent'', ''Urgent keywords detected'', 0.90)
             else (''personal'', ''Default classification - no specific rules matched'', 0.5))
      in \<lparr>EmailID = ID email, Category = category, Confidence_r = confidence,
           Method = ''rules'', Tags_r = [''default'', ''heuristic''],
           Reasoning = reasoning, Timestamp = now\<rparr>)"

text \<open>
  The loop of \<open>classifyByRules\<close> over the rules, with its two variables
  \<open>bestMatch\<close> (a pointer, \<open>nil\<close> at first) and \<open>highestConfidence\<close>.
\<close>

fun rules_loop ::
  "stdlib \<Rightarrow> time \<Rightarrow> Email \<Rightarrow> (string \<times> ClassificationRule) list \<Rightarrow>
   ClassificationResult option \<Rightarrow> real \<Rightarrow> ClassificationResult option option" where
  "rules_loop L now email [] bestMatch highestConfidence = Some bestMatch"
| "rules_loop L now email ((category, rule) # rs) bestMatch highestConfidence =
     do { m \<leftarrow> matchesRule L email rule;
          if m \<and> Confidence rule > highestConfidence
          then rules_loop L now email rs
                 (Some \<lparr>EmailID = ID email, Category = category,
                        Confidence_r = Confidence rule, Method = ''rules'',
                        Tags_r = Tags rule,
                        Reasoning = ''Matched rule: '' @ Description rule,
                        Timestamp = now\<rparr>)
                 (Confidence rule)
          else rules_loop L now email rs bestMatch highestConfidence }"

definition classifyByRules ::
  "stdlib \<Rightarrow> Classifier \<Rightarrow> time \<Rightarrow> Email \<Rightarrow> ClassificationResult option" where
  "classifyByRules L c now email =
     do { bestMatch \<leftarrow> rules_loop L now email (ClassificationRules (config c)) None 0.0;
          case bestMatch of
            None \<Rightarrow> Some (defaultClassification L now email)
          | Some r \<Rightarrow> Some r }"

subsection \<open>Classify\<close>

text \<open>
  \<open>Classify\<close> reads and writes the cache of the classifier, so it returns the
  classifier with its result. The result is Go's pair of a
  \<open>*ClassificationResult\<close> and an \<open>error\<close>. \<open>Classify_uncached\<close> is the body of
  the function from the comment \<open>Check if email should be ignored\<close> on, which runs
  when the cache holds no entry younger than 24 hours.
\<close>

definition Classify_uncached ::
  "stdlib \<Rightarrow> Classifier \<Rightarrow> time \<Rightarrow> Email \<Rightarrow> string \<Rightarrow>
   ((ClassificationResult \<times> error option) \<times> Classifier) option" where
  "Classify_uncached L c now email cacheKey =
     do { ignoreSender \<leftarrow> ShouldIgnoreSender (config c) (From email);
          if ignoreSender
          then Some ((\<lparr>EmailID = ID email, Category = ''spam'', Confidence_r = 0.99,
                       Method = ''rules'', Tags_r = [''ignored'', ''auto''],
                       Reasoning = ''Sender is in ignore list'',
                       Timestamp = now\<rparr>, None), c)
          else do {
            ignoreSubject \<leftarrow> ShouldIgnoreSubject (config c) (Subject email);
            if ignoreSubject
            then Some ((\<lparr>EmailID = ID email, Category = ''newsletters'',
                         Confidence_r = 0.95, Method = ''rules'',
                         Tags_r = [''ignored'', ''auto''],
                         Reasoning = ''Subject matches ignore pattern'',
                         Timestamp = now\<rparr>, None), c)
            else do {
              result \<leftarrow> classifyByRules L c now email;
              Some ((result, None), c\<lparr>cache := (cache c)(cacheKey \<mapsto> result)\<rparr>) } } }"

definition Classify ::
  "stdlib \<Rightarrow> Classifier \<Rightarrow> time \<Rightarrow> Email \<Rightarrow>
   ((ClassificationResult \<times> error option) \<times> Classifier) option" where
  "Classify L c now email =
     (let cacheKey = getCacheKey L email in
      case cache c cacheKey of
        Some cached \<Rightarrow>
          if Since now (Timestamp cached) < 24 * Hour then Some ((cached, None), c)
          else Classify_uncached L c now email cacheKey
      | None \<Rightarrow> Classify_uncached L c now email cacheKey)"

text \<open>\<open>SaveClassification\<close>, \<open>GetClassification\<close> and \<open>LearnFromFeedback\<close>.\<close>

definition SaveClassification ::
  "Classifier \<Rightarrow> time \<Rightarrow> ClassificationResult \<Rightarrow> error option \<times> Classifier" where
  "SaveClassification c now result =
     (let classification =
            \<lparr>EmailID_s = EmailID result, Category_s = Category result,
             Confidence_s = Confidence_r result, Method_s = Method result,
             Tags_s = Tags_r result, Reasoning_s = Reasoning result,
             ClassifiedAt = 0\<rparr>;
          (err, d) = SaveClassification_db (db c) now classification
      in (err, c\<lparr>db := d\<rparr>))"

definition GetClassification :: "Classifier \<Rightarrow> string \<Rightarrow> error + ClassificationResult" where
  "GetClassification c emailID =
     (case GetClassification_db (db c) emailID of
        Inl err \<Rightarrow> Inl err
      | Inr classification \<Rightarrow>
          Inr \<lparr>EmailID = EmailID_s classification, Category = Category_s classification,
               Confidence_r = Confidence_s classification,
               Method = Method_s classification, Tags_r = Tags_s classification,
               Reasoning = Reasoning_s classification,
               Timestamp = ClassifiedAt classification\<rparr>)"

definition LearnFromFeedback ::
  "Classifier \<Rightarrow> time \<Rightarrow> string \<Rightarrow> string \<Rightarrow> error option \<times> Classifier" where
  "LearnFromFeedback c now emailID correctCategory =
     SaveClassification c now
       \<lparr>EmailID = emailID, Category = correctCategory, Confidence_r = 1.0,
        Method = ''user'', Tags_r = [''user_corrected''], Reasoning = ''User feedback'',
        Timestamp = now\<rparr>"

definition ClearCache :: "Classifier \<Rightarrow> Classifier" where
  "ClearCache c = c\<lparr>cache := Map.empty\<rparr>"

section \<open>Package ai: the priority engine\<close>

subsection \<open>Data\<close>

text \<open>
  The entries of the reasoning chain are formatted texts. An entry is represented by
  the format it is printed with and the values printed in it.
\<close>

datatype reason =
  VIP_sender
| Important_domain string
| Learned_VIP_sender
| Engagement_score int int
| Unknown_sender
| Urgent_keyword_in_subject string
| Urgent_keyword_in_body string
| Action_keyword string
| No_urgent_keywords
| Very_recent
| Recent
| Today
| Last_3_days
| Old_days int
| Category_plus string int
| Category_minus string int
| Category_zero string
| Unknown_category
| No_engagement_history
| High_engagement float64 float64 int
| Some_engagement int
| Part_of_active_thread
| New_conversation
| Time_decay int float64

record PriorityScore =
  EmailID_p :: string
  Score :: int
  Factors :: "string \<rightharpoonup> int"
  ReasoningChain :: "reason list"
  Category_p :: string
  Timestamp_p :: time

text \<open>\<open>classifier\<close> is a pointer that may be \<open>nil\<close>.\<close>

record PriorityEngine =
  config_pe :: PriorityConfig
  db_pe :: Database
  classifier :: "Classifier option"

subsection \<open>The six factors\<close>

definition calculateSenderScore :: "PriorityEngine \<Rightarrow> Email \<Rightarrow> (int \<times> reason list) option" where
  "calculateSenderScore pe email =
     (if IsVIPSender (config_pe pe) (From email) then Some (0 + 30, [VIP_sender])
      else do {
        domain \<leftarrow> ExtractDomain (From email);
        if IsImportantDomain (config_pe pe) domain
        then Some (0 + 20, [Important_domain domain])
        else
          (let (score, reasoning) =
                 (case GetSenderAnalytics (db_pe pe) (From email) of
                    Inr analytics \<Rightarrow>
                      if IsVIP analytics then (0 + 25, [Learned_VIP_sender])
                      else (let engagementBonus =
                                  go_quot (go_mul (EngagementScore analytics) 15) 100
                            in if engagementBonus > 0
                               then (go_add 0 engagementBonus,
                                     [Engagement_score (EngagementScore analytics)
                                        engagementBonus])
                               else (0, []))
                  | Inl err \<Rightarrow> (0, []))
           in Some (score, if score = 0 then reasoning @ [Unknown_sender] else reasoning)) })"

definition actionKeywords :: "string list" where
  "actionKeywords =
     [''action required'', ''please respond'', ''response needed'', ''deadline'', ''due date'']"

definition calculateKeywordScore ::
  "stdlib \<Rightarrow> PriorityEngine \<Rightarrow> Email \<Rightarrow> (int \<times> reason list) option" where
  "calculateKeywordScore L pe email =
     do { (hasUrgent, keyword) \<leftarrow> HasUrgentKeyword (config_pe pe) (Subject email);
          if hasUrgent then Some (0 + 20, [Urgent_keyword_in_subject keyword])
          else do {
            (hasUrgent, keyword) \<leftarrow> HasUrgentKeyword (config_pe pe) (BodySnippet email);
            if hasUrgent then Some (0 + 15, [Urgent_keyword_in_body keyword])
            else
              (case find (\<lambda>kw. containsIgnoreCase L (Subject email) kw \<or>
                                 containsIgnoreCase L (BodySnippet email) kw)
                      actionKeywords of
                 Some kw \<Rightarrow> Some (0 + 10, [Action_keyword kw])
               | None \<Rightarrow> Some (0, [No_urgent_keywords])) } }"

definition calculateTemporalScore :: "time \<Rightarrow> Email \<Rightarrow> int \<times> reason list" where
  "calculateTemporalScore now email =
     (let age = Since now (ReceivedAt email)
      in if age < 1 * Hour then (15, [Very_recent])
         else if age < 6 * Hour then (10, [Recent])
         else if age < 24 * Hour then (5, [Today])
         else if age < 3 * 24 * Hour then (2, [Last_3_days])
         else (0, [Old_days (int_of_float64 (fdiv (Hours age) (Finite 24)))]))"

text \<open>
  \<open>calculateCategoryScore\<close> may call \<open>Classify\<close>, which writes the cache of the
  classifier: the engine is returned with the result.
\<close>

definition calculateCategoryScore ::
  "stdlib \<Rightarrow> PriorityEngine \<Rightarrow> time \<Rightarrow> Email \<Rightarrow>
   ((int \<times> reason list \<times> string) \<times> PriorityEngine) option" where
  "calculateCategoryScore L pe now email =
     do { (classification, pe') \<leftarrow>
            (case classifier pe of
               None \<Rightarrow> Some (None, pe)
             | Some c \<Rightarrow>
                 (case GetClassification c (ID email) of
                    Inr r \<Rightarrow> Some (Some r, pe)
                  | Inl err \<Rightarrow>
                      do { ((r, err'), c') \<leftarrow> Classify L c now email;
                           Some (Some r, pe\<lparr>classifier := Some c'\<rparr>) }));
          case classification of
            Some r \<Rightarrow>
              (let category = Category r;
                   categoryBoost = GetCategoryPriority (config_pe pe) category;
                   normalizedScore = (if categoryBoost > 15 then 15 else categoryBoost);
                   normalizedScore = (if normalizedScore < 0 then 0 else normalizedScore);
                   score = normalizedScore
               in Some ((score,
                         (if categoryBoost > 0 then [Category_plus category score]
                          else if categoryBoost < 0 then [Category_minus category categoryBoost]
                          else [Category_zero category]),
                         category), pe'))
          | None \<Rightarrow> Some ((0, [Unknown_category], ''unknown''), pe') }"

definition calculateEngagementScore :: "PriorityEngine \<Rightarrow> Email \<Rightarrow> int \<times> reason list" where
  "calculateEngagementScore pe email =
     (case GetSenderAnalytics (db_pe pe) (From email) of
        Inl err \<Rightarrow> (0, [No_engagement_history])
      | Inr analytics \<Rightarrow>
          (let (score, reasoning) =
                 (if TotalEmails analytics > 0
                  then (let readRate = fdiv (float64_of_int (ReadCount analytics))
                                            (float64_of_int (TotalEmails analytics));
                            replyRate = fdiv (float64_of_int (ReplyCount analytics))
                                             (float64_of_int (TotalEmails analytics));
                            engagementScore =
                              int_of_float64 (fadd (fmul readRate (Finite 5))
                                                   (fmul replyRate (Finite 5)));
                            engagementScore =
                              (if engagementScore > 10 then 10 else engagementScore);
                            score = engagementScore
                        in (score,
                            if score > 5
                            then [High_engagement (fmul readRate (Finite 100))
                                    (fmul replyRate (Finite 100)) score]
                            else if score > 0 then [Some_engagement score] else []))
                  else (0, []))
           in (score, if score = 0 then reasoning @ [No_engagement_history] else reasoning)))"

definition calculateThreadScore :: "stdlib \<Rightarrow> Email \<Rightarrow> int \<times> reason list" where
  "calculateThreadScore L email =
     (let isReply = (strings_Contains (strings_ToLower L (Subject email)) ''re:'' \<or>
                     strings_Contains (strings_ToLower L (Subject email)) ''fwd:'')
      in if isReply then (10, [Part_of_active_thread]) else (0, [New_conversation]))"

subsection \<open>Decay and the total\<close>

definition applyTimeDecay :: "PriorityEngine \<Rightarrow> time \<Rightarrow> int \<Rightarrow> time \<Rightarrow> int \<times> reason option" where
  "applyTimeDecay pe now score receivedAt =
     (if \<not> Enabled (TimeDecay (PriorityRules (config_pe pe))) then (score, None)
      else
        (let age = Since now receivedAt;
             maxAge = go_mul (MaxAgeHours (TimeDecay (PriorityRules (config_pe pe)))) Hour
         in if age > maxAge
            then (let decayRate = DecayRate (TimeDecay (PriorityRules (config_pe pe)));
                      hoursOld = Hours age;
                      decayFactor =
                        fsub (Finite 1) (fmul decayRate (fdiv hoursOld (Finite 24)));
                      decayFactor =
                        (if flt decayFactor (Finite 0) then Finite 0 else decayFactor);
                      newScore = int_of_float64 (fmul (float64_of_int score) decayFactor);
                      reduction = go_sub score newScore
                  in (newScore, Some (Time_decay reduction (fdiv hoursOld (Finite 24)))))
            else (score, None)))"

definition CalculatePriority ::
  "stdlib \<Rightarrow> PriorityEngine \<Rightarrow> time \<Rightarrow> Email \<Rightarrow>
   ((PriorityScore \<times> error option) \<times> PriorityEngine) option" where
  "CalculatePriority L pe now email =
     do { (senderScore, senderReasoning) \<leftarrow> calculateSenderScore pe email;
          (keywordScore, keywordReasoning) \<leftarrow> calculateKeywordScore L pe email;
          (temporalScore, temporalReasoning) \<leftarrow> Some (calculateTemporalScore now email);
          ((categoryScore, categoryReasoning, category), pe') \<leftarrow>
             calculateCategoryScore L pe now email;
          (engagementScore, engagementReasoning) \<leftarrow> Some (calculateEngagementScore pe' email);
          (threadScore, threadReasoning) \<leftarrow> Some (calculateThreadScore L email);
          (let score = go_add 0 senderScore;
               score = go_add score keywordScore;
               score = go_add score temporalScore;
               score = go_add score categoryScore;
               score = go_add score engagementScore;
               score = go_add score threadScore;
               factors = [''sender'' \<mapsto> senderScore, ''keywords'' \<mapsto> keywordScore,
                          ''temporal'' \<mapsto> temporalScore, ''category'' \<mapsto> categoryScore,
                          ''engagement'' \<mapsto> engagementScore, ''thread'' \<mapsto> threadScore];
               reasoning = senderReasoning @ keywordReasoning @ temporalReasoning @
                           categoryReasoning @ engagementReasoning @ threadReasoning;
               (score, reasoning) =
                  (if Enabled (TimeDecay (PriorityRules (config_pe pe')))
                   then (let (decayedScore, decayReasoning) =
                               applyTimeDecay pe' now score (ReceivedAt email)
                         in if decayedScore \<noteq> score
                            then (decayedScore, reasoning @ (case decayReasoning of
                                     Some r \<Rightarrow> [r] | None \<Rightarrow> []))
                            else (score, reasoning))
                   else (score, reasoning));
               score = (if score > 100 then 100 else score);
               score = (if score < 0 then 0 else score)
           in Some ((\<lparr>EmailID_p = ID email, Score = score, Factors = factors,
                       ReasoningChain = reasoning, Category_p = category,
                       Timestamp_p = now\<rparr>, None), pe')) }"

section \<open>Specification-side definitions\<close>

subsection \<open>The classifier\<close>

text \<open>
  The ignore patterns as the specification describes them (section 4.1, step 2): the
  universal pattern \<open>*\<close>, an exact match, a prefix glob \<open>foo*\<close> and a suffix glob
  \<open>*foo\<close>, where \<open>foo\<close> is a non-empty text without \<open>*\<close>. Both arguments are
  lower-cased by the caller.
\<close>

definition star_free :: "string \<Rightarrow> bool" where
  "star_free p = (\<not> list_ex (\<lambda>c. c = CHR ''*'') p)"

definition has_suffix :: "string \<Rightarrow> string \<Rightarrow> bool" where
  "has_suffix s x = has_prefix (rev s) (rev x)"

definition ignore_pattern_spec :: "string \<Rightarrow> string \<Rightarrow> bool" where
  "ignore_pattern_spec pattern sender =
     (pattern = ''*'' \<or>
      (star_free pattern \<and> sender = pattern) \<or>
      (pattern \<noteq> [] \<and> last pattern = CHR ''*'' \<and> butlast pattern \<noteq> [] \<and>
       star_free (butlast pattern) \<and> has_prefix sender (butlast pattern)) \<or>
      (pattern \<noteq> [] \<and> hd pattern = CHR ''*'' \<and> tl pattern \<noteq> [] \<and>
       star_free (tl pattern) \<and> has_suffix sender (tl pattern)))"

text \<open>
  The cache holds an entry for the message that is younger than 24 hours: the condition
  under which \<open>Classify\<close> returns the cached result.
\<close>

definition cache_hit :: "stdlib \<Rightarrow> Classifier \<Rightarrow> time \<Rightarrow> Email \<Rightarrow> bool" where
  "cache_hit L c now email =
     (case cache c (getCacheKey L email) of
        Some cached \<Rightarrow> Since now (Timestamp cached) < 24 * Hour
      | None \<Rightarrow> False)"

text \<open>
  The fallback heuristics as the specification lists them (section 4.1, step 5): a
  table of keyword lists in priority order, each looked for in the sender (\<open>True\<close>) or
  in the subject (\<open>False\<close>), with the category and confidence it yields; the first
  line that matches wins, and the default is \<open>personal\<close> with confidence 0.50.
\<close>

definition heuristic_table :: "(bool \<times> string list \<times> string \<times> real) list" where
  "heuristic_table =
     [(True, [''noreply@'', ''no-reply@'', ''notifications@''], ''newsletters'', 0.70),
      (False, [''newsletter'', ''subscription'', ''digest''], ''newsletters'', 0.75),
      (False, [''sale'', ''offer'', ''discount'', ''% off'', ''deal''], ''promotions'', 0.80),
      (False, [''invoice'', ''payment'', ''receipt'', ''bill''], ''invoice'', 0.85),
      (False, [''urgent'', ''asap'', ''important'', ''critical''], ''urgent'', 0.90)]"

fun first_match ::
  "string \<Rightarrow> string \<Rightarrow> (bool \<times> string list \<times> string \<times> real) list \<Rightarrow> string \<times> real" where
  "first_match sender subject [] = (''personal'', 0.50)"
| "first_match sender subject ((on_sender, keywords, category, confidence) # rest) =
     (if list_ex (\<lambda>k. strings_Contains (if on_sender then sender else subject) k) keywords
      then (category, confidence)
      else first_match sender subject rest)"

text \<open>The result of the sender short-circuit of \<open>Classify\<close>, as the specification gives it.\<close>

definition ignored_sender_result :: "Email \<Rightarrow> time \<Rightarrow> ClassificationResult" where
  "ignored_sender_result email now =
     \<lparr>EmailID = ID email, Category = ''spam'', Confidence_r = 0.99, Method = ''rules'',
      Tags_r = [''ignored'', ''auto''], Reasoning = ''Sender is in ignore list'',
      Timestamp = now\<rparr>"

subsection \<open>The priority score\<close>

text \<open>The clamp to the range from 0 to 100.\<close>

definition clamp100 :: "int \<Rightarrow> int" where
  "clamp100 x = max 0 (min 100 x)"

text \<open>
  The sum of the six contributions recorded in a factor map; a name that the map
  lacks counts 0, as a Go map lookup does.
\<close>

definition factor :: "(string \<rightharpoonup> int) \<Rightarrow> string \<Rightarrow> int" where
  "factor F name = (case F name of Some v \<Rightarrow> v | None \<Rightarrow> 0)"

definition factor_sum :: "(string \<rightharpoonup> int) \<Rightarrow> int" where
  "factor_sum F =
     factor F ''sender'' + factor F ''keywords'' + factor F ''temporal'' +
     factor F ''category'' + factor F ''engagement'' + factor F ''thread''"

text \<open>
  Decay applies: it is enabled and the age of the message exceeds the configured
  maximum, as \<open>applyTimeDecay\<close> tests it, on values of type \<open>time.Duration\<close>.
\<close>

definition decay_applies :: "PriorityEngine \<Rightarrow> time \<Rightarrow> Email \<Rightarrow> bool" where
  "decay_applies pe now email =
     (Enabled (TimeDecay (PriorityRules (config_pe pe))) \<and>
      Since now (ReceivedAt email) >
        go_mul (MaxAgeHours (TimeDecay (PriorityRules (config_pe pe)))) Hour)"

text \<open>
  The same condition on the numbers themselves: the time that has passed since the
  message was received is more than the configured number of hours. The two agree
  when the configured number of hours, in nanoseconds, fits a \<open>time.Duration\<close>,
  that is, up to 2562047 hours in either direction.
\<close>

definition age_exceeds_max_age :: "PriorityEngine \<Rightarrow> time \<Rightarrow> Email \<Rightarrow> bool" where
  "age_exceeds_max_age pe now email =
     (now - ReceivedAt email > MaxAgeHours (TimeDecay (PriorityRules (config_pe pe))) * Hour)"

definition max_age_fits :: "PriorityEngine \<Rightarrow> bool" where
  "max_age_fits pe =
     (- 2562047 \<le> MaxAgeHours (TimeDecay (PriorityRules (config_pe pe))) \<and>
      MaxAgeHours (TimeDecay (PriorityRules (config_pe pe))) \<le> 2562047)"

text \<open>
  The decayed score as the specification computes it (section 4.2, Decay): the raw sum
  is clamped, multiplied by \<open>max(0, 1 - decayRate * (ageInHours / 24))\<close>, rounded
  down and clamped again. \<open>spec_decayed_score\<close> is the formula in exact arithmetic.
\<close>

definition spec_decayed_score :: "int \<Rightarrow> real \<Rightarrow> real \<Rightarrow> int" where
  "spec_decayed_score raw decayRate ageInHours =
     clamp100 \<lfloor>real_of_int (clamp100 raw) * max 0 (1 - decayRate * (ageInHours / 24))\<rfloor>"

text \<open>
  \<open>spec_decayed_score_f64\<close> is the same formula in \<open>float64\<close> arithmetic: the age in
  hours is \<open>Duration.Hours()\<close> of the age, every operation is rounded, and the
  product is converted by \<open>int(x)\<close>.
\<close>

definition decay_factor :: "float64 \<Rightarrow> duration \<Rightarrow> float64" where
  "decay_factor decayRate age =
     (let f = fsub (Finite 1) (fmul decayRate (fdiv (Hours age) (Finite 24)))
      in if flt f (Finite 0) then Finite 0 else f)"

definition decayed_f64 :: "int \<Rightarrow> float64 \<Rightarrow> int" where
  "decayed_f64 score f = int_of_float64 (fmul (float64_of_int score) f)"

definition spec_decayed_score_f64 :: "int \<Rightarrow> float64 \<Rightarrow> duration \<Rightarrow> int" where
  "spec_decayed_score_f64 raw decayRate age =
     clamp100 (decayed_f64 (clamp100 raw) (decay_factor decayRate age))"

text \<open>
  What the store asks of the analytics record of the sender, when it has one: the
  engagement score is in the range of the \<open>CHECK\<close> constraint of \<open>schema.sql\<close>.
\<close>

definition analytics_of :: "PriorityEngine \<Rightarrow> Email \<Rightarrow> SenderAnalytics option" where
  "analytics_of pe email = sender_analytics (db_pe pe) (From email)"

definition engagement_in_range :: "PriorityEngine \<Rightarrow> Email \<Rightarrow> bool" where
  "engagement_in_range pe email =
     (case analytics_of pe email of
        None \<Rightarrow> True
      | Some sa \<Rightarrow> sender_analytics_check sa)"

section \<open>Concrete inputs\<close>

text \<open>
  The inputs at which the theorems below are instantiated. \<open>L0\<close> stands for the
  standard library on the few strings used: lower-casing of ASCII text, a regular
  expression compiler that rejects the pattern \<open>(\<close> and reads every other pattern as
  a literal, and simple stand-ins for the digest and the time format.
\<close>

definition L0 :: stdlib where
  "L0 = \<lparr>strings_ToLower = toLower,
         regexp_Compile = (\<lambda>p. if p = ''('' then None else Some (\<lambda>s. strings_Contains s p)),
         md5_hex = (\<lambda>s. s),
         format_RFC3339 = (\<lambda>t. if t = 0 then ''0'' else ''t'')\<rparr>"

definition no_decay :: TimeDecayConfig where
  "no_decay = \<lparr>Enabled = False, MaxAgeHours = 0, DecayRate = Finite 0\<rparr>"

definition rules0 :: PriorityRules where
  "rules0 = \<lparr>VIPSenders = [], ImportantDomains = [], UrgentKeywords = [],
             IgnoreSenders = [], IgnoreSubjects = [], CategoryPriority = [],
             TimeDecay = no_decay\<rparr>"

definition db0 :: Database where
  "db0 = \<lparr>classifications = Map.empty, sender_analytics = Map.empty\<rparr>"

definition email0 :: Email where
  "email0 = \<lparr>ID = ''m1'', From = ''newsletter@techcrunch.com'', To = ''me@example.com'',
              Subject = ''Daily Tech News Digest'', Body = [], BodySnippet = [],
              Headers = [], ReceivedAt = 0\<rparr>"

definition bad_regex :: Condition where
  "bad_regex = \<lparr>Field = ''subject'', Operator = ''regex'', Value = ''('', Values = []\<rparr>"

definition cfg_bad_regex :: PriorityConfig where
  "cfg_bad_regex =
     \<lparr>PriorityRules = rules0,
      ClassificationRules =
        [(''work'', \<lparr>Description = ''broken'', Conditions = [bad_regex], PriorityBoost = 0,
                     Confidence = 0.9, Tags = []\<rparr>)]\<rparr>"

definition cfg_marketing :: PriorityConfig where
  "cfg_marketing =
     \<lparr>PriorityRules = rules0\<lparr>IgnoreSenders := [''*@marketing.com'']\<rparr>,
      ClassificationRules = []\<rparr>"

definition promo :: Email where
  "promo = \<lparr>ID = ''m2'', From = ''promo@marketing.com'', To = ''me@example.com'',
             Subject = ''Hello'', Body = [], BodySnippet = [], Headers = [],
             ReceivedAt = 0\<rparr>"

definition cfg_plain :: PriorityConfig where
  "cfg_plain = \<lparr>PriorityRules = rules0, ClassificationRules = []\<rparr>"

text \<open>
  A configuration that \<open>Validate\<close> accepts, with one rule, for category \<open>work\<close>,
  of confidence 0 (the value of a rule whose \<open>confidence\<close> is left out of the file).
\<close>

definition rule_zero :: ClassificationRule where
  "rule_zero =
     \<lparr>Description = ''from the boss'',
      Conditions = [\<lparr>Field = ''from'', Operator = ''contains'', Value = ''boss'', Values = []\<rparr>],
      PriorityBoost = 0, Confidence = 0, Tags = [''work'']\<rparr>"

definition cfg_zero :: PriorityConfig where
  "cfg_zero = \<lparr>PriorityRules = rules0, ClassificationRules = [(''work'', rule_zero)]\<rparr>"

definition from_boss :: Email where
  "from_boss = \<lparr>ID = ''m3'', From = ''boss@company.com'', To = ''me@example.com'',
                 Subject = ''Budget'', Body = [], BodySnippet = [], Headers = [],
                 ReceivedAt = 0\<rparr>"

definition c_marketing :: Classifier where
  "c_marketing = NewClassifier cfg_marketing db0"

text \<open>A classifier whose cache holds a result for \<open>email0\<close>, computed at time 3.\<close>

definition cached0 :: ClassificationResult where
  "cached0 = \<lparr>EmailID = ''m1'', Category = ''newsletters'', Confidence_r = 0.75,
               Method = ''rules'', Tags_r = [''default'', ''heuristic''],
               Reasoning = ''Newsletter keywords in subject'', Timestamp = 3\<rparr>"

definition c_cached :: Classifier where
  "c_cached = (NewClassifier cfg_plain db0)\<lparr>cache := [getCacheKey L0 email0 \<mapsto> cached0]\<rparr>"

text \<open>
  Engines that share configuration and store with their classifier, as the server
  builds them. Category \<open>personal\<close> has priority 5.
\<close>

definition cfg_personal :: PriorityConfig where
  "cfg_personal =
     \<lparr>PriorityRules = rules0\<lparr>CategoryPriority := [(''personal'', 5)]\<rparr>,
      ClassificationRules = []\<rparr>"

definition pe_plain :: PriorityEngine where
  "pe_plain = \<lparr>config_pe = cfg_personal, db_pe = db0,
               classifier = Some (NewClassifier cfg_personal db0)\<rparr>"

text \<open>A message received at time 0, scored 48 hours later.\<close>

definition old_mail :: Email where
  "old_mail = \<lparr>ID = ''m4'', From = ''ann@example.com'', To = ''me@example.com'',
                Subject = ''re: minutes'', Body = [], BodySnippet = [], Headers = [],
                ReceivedAt = 0\<rparr>"

definition decay_cfg :: "float64 \<Rightarrow> PriorityConfig" where
  "decay_cfg rate =
     \<lparr>PriorityRules = rules0\<lparr>CategoryPriority := [(''personal'', 5)],
          TimeDecay := \<lparr>Enabled = True, MaxAgeHours = 24, DecayRate = rate\<rparr>\<rparr>,
      ClassificationRules = []\<rparr>"

definition pe_decay :: "float64 \<Rightarrow> PriorityEngine" where
  "pe_decay rate = \<lparr>config_pe = decay_cfg rate, db_pe = db0,
                    classifier = Some (NewClassifier (decay_cfg rate) db0)\<rparr>"

text \<open>Analytics records of the sender \<open>ann@example.com\<close>.\<close>

definition analytics :: "int \<Rightarrow> int \<Rightarrow> int \<Rightarrow> int \<Rightarrow> SenderAnalytics" where
  "analytics n reads replies engagement =
     \<lparr>EmailAddress = ''ann@example.com'', AccountID = ''a'', TotalEmails = n,
      ReadCount = reads, ReplyCount = replies, AvgResponseTime = 0, LastInteraction = 0,
      EngagementScore = engagement, IsVIP = False\<rparr>"

definition db_with :: "SenderAnalytics \<Rightarrow> Database" where
  "db_with sa = \<lparr>classifications = Map.empty, sender_analytics = [''ann@example.com'' \<mapsto> sa]\<rparr>"

definition pe_with :: "float64 \<Rightarrow> SenderAnalytics \<Rightarrow> PriorityEngine" where
  "pe_with rate sa = \<lparr>config_pe = decay_cfg rate, db_pe = db_with sa,
                       classifier = Some (NewClassifier (decay_cfg rate) (db_with sa))\<rparr>"

text \<open>
  A configuration whose maximum age, 3000000 hours, does not fit a \<open>time.Duration\<close>
  when counted in nanoseconds, with the sender \<open>ann@example.com\<close> a VIP and decay
  rate 1/2; and the message \<open>old_mail\<close> dated one hour after the time 0.
\<close>

definition overflow_cfg :: PriorityConfig where
  "overflow_cfg =
     \<lparr>PriorityRules = rules0\<lparr>VIPSenders := [''ann@example.com''],
          CategoryPriority := [(''personal'', 5)],
          TimeDecay := \<lparr>Enabled = True, MaxAgeHours = 3000000, DecayRate = Finite (1 / 2)\<rparr>\<rparr>,
      ClassificationRules = []\<rparr>"

definition pe_overflow :: PriorityEngine where
  "pe_overflow = \<lparr>config_pe = overflow_cfg, db_pe = db0,
                  classifier = Some (NewClassifier overflow_cfg db0)\<rparr>"

definition early_mail :: Email where
  "early_mail = old_mail\<lparr>ReceivedAt := Hour\<rparr>"

text \<open>
  A configuration with the domain \<open>example.com\<close> important, a maximum age of 10 hours
  and decay rate 1; and a message of a new conversation received at time 0.
\<close>

definition rounding_cfg :: PriorityConfig where
  "rounding_cfg =
     \<lparr>PriorityRules = rules0\<lparr>ImportantDomains := [''example.com''],
          CategoryPriority := [(''personal'', 5)],
          TimeDecay := \<lparr>Enabled = True, MaxAgeHours = 10, DecayRate = Finite 1\<rparr>\<rparr>,
      ClassificationRules = []\<rparr>"

definition pe_rounding :: PriorityEngine where
  "pe_rounding = \<lparr>config_pe = rounding_cfg, db_pe = db0,
                  classifier = Some (NewClassifier rounding_cfg db0)\<rparr>"

definition new_mail :: Email where
  "new_mail = \<lparr>ID = ''m5'', From = ''ann@example.com'', To = ''me@example.com'',
                Subject = ''minutes'', Body = [], BodySnippet = [], Headers = [],
                ReceivedAt = 0\<rparr>"

text \<open>Two rules that both match \<open>from_boss\<close>, visited with the weaker one first.\<close>

definition rule_work :: ClassificationRule where
  "rule_work =
     \<lparr>Description = ''from the boss'',
      Conditions = [\<lparr>Field = ''from'', Operator = ''contains'', Value = ''boss'', Values = []\<rparr>],
      PriorityBoost = 0, Confidence = 0.6, Tags = [''work'']\<rparr>"

definition rule_money :: ClassificationRule where
  "rule_money =
     \<lparr>Description = ''money'',
      Conditions = [\<lparr>Field = ''subject'', Operator = ''contains_any'', Value = [],
                     Values = [''invoice'', ''budget'']\<rparr>],
      PriorityBoost = 0, Confidence = 0.9, Tags = [''finance'']\<rparr>"

definition cfg_two :: PriorityConfig where
  "cfg_two = \<lparr>PriorityRules = rules0,
               ClassificationRules = [(''work'', rule_work), (''invoice'', rule_money)]\<rparr>"

section \<open>The helper functions never panic\<close>

lemma indexOf_loop_total:
  "\<exists>r. indexOf_loop s substr i = Some r \<and>
       (r = - 1 \<or> (int i \<le> r \<and> r + int (length substr) \<le> int (length s)))"
proof (induction s substr i rule: indexOf_loop.induct)
  case (1 s substr i)
  show ?case
  proof (cases "int i \<le> int (length s) - int (length substr)")
    case False
    then show ?thesis by (subst indexOf_loop.simps) simp
  next
    case True
    then have sl: "go_slice s (int i) (int i + int (length substr)) =
        Some (take (length substr) (drop i s))"
      by (simp add: go_slice_def)
    show ?thesis
    proof (cases "take (length substr) (drop i s) = substr")
      case eq: True
      with True sl show ?thesis by (subst indexOf_loop.simps) simp
    next
      case neq: False
      from "1.IH"[OF True sl neq] obtain r where
        r: "indexOf_loop s substr (Suc i) = Some r"
           "r = - 1 \<or> (int (Suc i) \<le> r \<and> r + int (length substr) \<le> int (length s))"
        by blast
      with True sl neq show ?thesis by (subst indexOf_loop.simps) auto
    qed
  qed
qed

lemma indexOf_total:
  "\<exists>r. indexOf s substr = Some r \<and>
       (r = - 1 \<or> (0 \<le> r \<and> r + int (length substr) \<le> int (length s)))"
  using indexOf_loop_total[of s substr 0] by (auto simp: indexOf_def)

lemma contains_total: "\<exists>b. contains s substr = Some b"
  using indexOf_total[of s substr] by (auto simp: contains_def)

lemma ExtractDomain_total: "\<exists>d. ExtractDomain email = Some d"
proof -
  obtain r where r: "indexOf email ''@'' = Some r"
    "r = - 1 \<or> (0 \<le> r \<and> r + int (length ''@'') \<le> int (length email))"
    using indexOf_total[of email "''@''"] by blast
  then show ?thesis by (auto simp: ExtractDomain_def go_slice_def)
qed

lemma parts_in_order_total:
  "0 \<le> pos \<Longrightarrow> pos \<le> int (length s) \<Longrightarrow> \<exists>b. parts_in_order s pos parts = Some b"
proof (induction parts arbitrary: pos)
  case Nil
  show ?case by auto
next
  case (Cons part parts)
  have sl: "go_slice s pos (int (length s)) = Some (drop (nat pos) s)"
    using Cons.prems by (simp add: go_slice_def)
  obtain idx where idx: "indexOf (drop (nat pos) s) part = Some idx"
    "idx = - 1 \<or> (0 \<le> idx \<and> idx + int (length part) \<le> int (length (drop (nat pos) s)))"
    using indexOf_total[of "drop (nat pos) s" part] by blast
  show ?case
  proof (cases "idx = - 1")
    case True
    with sl idx show ?thesis by auto
  next
    case False
    with idx(2) have b: "0 \<le> idx" "idx + int (length part) \<le> int (length s) - pos"
      using Cons.prems by auto
    then have "0 \<le> pos + (idx + int (length part))"
      "pos + (idx + int (length part)) \<le> int (length s)"
      using Cons.prems by auto
    from Cons.IH[OF this] False sl idx(1) show ?thesis by simp
  qed
qed

lemma matchPattern_total: "\<exists>b. matchPattern s pattern = Some b"
proof -
  obtain star where star: "indexOf pattern ''*'' = Some star"
    using indexOf_total[of pattern "''*''"] by blast
  obtain b where b: "parts_in_order s 0 (split_parts pattern [] []) = Some b"
    using parts_in_order_total[of 0 s] by auto
  show ?thesis
    using star b
    by (cases pattern) (auto simp: matchPattern_def go_slice_def go_index_def)
qed

lemma urgent_loop_total: "\<exists>r. urgent_loop t ks = Some r"
proof (induction ks)
  case Nil
  show ?case by auto
next
  case (Cons k ks)
  obtain b where "contains t (toLower k) = Some b" using contains_total by blast
  with Cons show ?case by (cases b) auto
qed

lemma ignore_sender_loop_total: "\<exists>r. ignore_sender_loop e ps = Some r"
proof (induction ps)
  case Nil
  show ?case by auto
next
  case (Cons p ps)
  obtain b where "matchPattern e (toLower p) = Some b" using matchPattern_total by blast
  with Cons show ?case by (cases b) auto
qed

lemma ignore_subject_loop_total: "\<exists>r. ignore_subject_loop e ps = Some r"
proof (induction ps)
  case Nil
  show ?case by auto
next
  case (Cons p ps)
  obtain b where "contains e (toLower p) = Some b" using contains_total by blast
  with Cons show ?case by (cases b) auto
qed

lemma matchesCondition_total: "\<exists>b. matchesCondition L email cond = Some b"
proof -
  have d: "\<And>v. \<exists>d. ExtractDomain v = Some d" by (rule ExtractDomain_total)
  show ?thesis
    unfolding matchesCondition_def
    using d[of "From email"] d[of "To email"] d[of "Subject email"]
      d[of "BodySnippet email"] d[of "getAllHeaders email"]
    by (auto split: option.splits)
qed

lemma conditions_loop_total: "\<exists>b. conditions_loop L email cs = Some b"
proof (induction cs)
  case Nil
  show ?case by auto
next
  case (Cons c cs)
  obtain b where "matchesCondition L email c = Some b" using matchesCondition_total by blast
  with Cons show ?case by (cases b) auto
qed

lemma matchesRule_total: "\<exists>b. matchesRule L email rule = Some b"
  by (simp add: matchesRule_def conditions_loop_total)

lemma rules_loop_total: "\<exists>r. rules_loop L now email rs best hi = Some r"
proof (induction rs arbitrary: best hi)
  case Nil
  show ?case by auto
next
  case (Cons a rs)
  obtain category rule where a: "a = (category, rule)" by (cases a)
  obtain m where m: "matchesRule L email rule = Some m" using matchesRule_total by blast
  show ?case using Cons[of best hi] Cons m unfolding a by simp
qed

lemma classifyByRules_total: "\<exists>r. classifyByRules L c now email = Some r"
proof -
  obtain b where "rules_loop L now email (ClassificationRules (config c)) None 0.0 = Some b"
    using rules_loop_total by blast
  then show ?thesis by (cases b) (auto simp: classifyByRules_def)
qed

lemma ShouldIgnoreSender_total: "\<exists>b. ShouldIgnoreSender pc email = Some b"
  by (simp add: ShouldIgnoreSender_def ignore_sender_loop_total)

lemma ShouldIgnoreSubject_total: "\<exists>b. ShouldIgnoreSubject pc subject = Some b"
  by (simp add: ShouldIgnoreSubject_def ignore_subject_loop_total)

lemma Classify_uncached_total:
  "\<exists>r c'. Classify_uncached L c now email k = Some ((r, None), c')"
proof -
  obtain a where a: "ShouldIgnoreSender (config c) (From email) = Some a"
    using ShouldIgnoreSender_total by blast
  obtain b where b: "ShouldIgnoreSubject (config c) (Subject email) = Some b"
    using ShouldIgnoreSubject_total by blast
  obtain r where r: "classifyByRules L c now email = Some r"
    using classifyByRules_total by blast
  show ?thesis using a b r by (simp add: Classify_uncached_def)
qed

section \<open>What \<open>matchPattern\<close> computes\<close>

lemma has_prefix_iff: "has_prefix s p \<longleftrightarrow> length p \<le> length s \<and> take (length p) s = p"
  by (induction s p rule: has_prefix.induct) auto

lemma has_suffix_iff:
  "has_suffix s x \<longleftrightarrow> length x \<le> length s \<and> drop (length s - length x) s = x"
proof -
  have "take (length x) (rev s) = rev x \<longleftrightarrow> rev (take (length x) (rev s)) = x"
    using rev_swap by blast
  also have "rev (take (length x) (rev s)) = drop (length s - length x) s"
    by (simp add: rev_take)
  finally show ?thesis by (auto simp: has_suffix_def has_prefix_iff)
qed

lemma indexOf_loop_char:
  "indexOf_loop s [c] i = Some r \<Longrightarrow> (r = - 1 \<longleftrightarrow> c \<notin> set (drop i s))"
proof (induction s "[c]" i arbitrary: r rule: indexOf_loop.induct)
  case (1 s i)
  show ?case
  proof (cases "i < length s")
    case False
    with "1.prems" show ?thesis by (subst (asm) indexOf_loop.simps) auto
  next
    case True
    then have le: "int i \<le> int (length s) - int (length [c])" by simp
    have sl: "go_slice s (int i) (int i + int (length [c])) = Some [s ! i]"
      using True by (simp add: go_slice_def take_Suc_conv_app_nth)
    have dr: "drop i s = s ! i # drop (Suc i) s"
      using True by (simp add: Cons_nth_drop_Suc)
    show ?thesis
    proof (cases "s ! i = c")
      case eq: True
      with "1.prems" le sl dr show ?thesis
        by (subst (asm) indexOf_loop.simps) auto
    next
      case neq: False
      then have neq': "[s ! i] \<noteq> [c]" by simp
      from "1.prems" le sl neq have "indexOf_loop s [c] (Suc i) = Some r"
        by (subst (asm) indexOf_loop.simps) auto
      from "1.hyps"[OF le sl neq' this] dr neq show ?thesis by auto
    qed
  qed
qed

lemma indexOf_star:
  "\<exists>r. indexOf pattern ''*'' = Some r \<and> (r = - 1 \<longleftrightarrow> star_free pattern)"
proof -
  obtain r where r: "indexOf pattern ''*'' = Some r" using indexOf_total by blast
  then have "r = - 1 \<longleftrightarrow> CHR ''*'' \<notin> set pattern"
    using indexOf_loop_char[of pattern "CHR ''*''" 0 r] by (simp add: indexOf_def)
  with r show ?thesis by (auto simp: star_free_def list_ex_iff)
qed

lemma matchPattern_exact:
  "star_free pattern \<Longrightarrow> matchPattern s pattern = Some (s = pattern)"
  using indexOf_star[of pattern]
  by (auto simp: matchPattern_def star_free_def)

lemma matchPattern_suffix:
  assumes "sfx \<noteq> []"
  shows "matchPattern s (CHR ''*'' # sfx) = Some (has_suffix s sfx)"
proof -
  obtain r where r: "indexOf (CHR ''*'' # sfx) ''*'' = Some r" "r \<noteq> - 1"
    using indexOf_star[of "CHR ''*'' # sfx"] by (auto simp: star_free_def)
  have n: "nat (int (length s) - int (length sfx)) = length s - length sfx" by simp
  show ?thesis using assms r
    by (auto simp: matchPattern_def go_index_def go_slice_def has_suffix_iff n
             simp del: nat_diff_distrib')
qed

lemma matchPattern_prefix:
  assumes "pfx \<noteq> []" "star_free pfx"
  shows "matchPattern s (pfx @ ''*'') = Some (has_prefix s pfx)"
proof -
  obtain r where r: "indexOf (pfx @ ''*'') ''*'' = Some r" "r \<noteq> - 1"
    using indexOf_star[of "pfx @ ''*''"] by (auto simp: star_free_def)
  from assms have hd: "(pfx @ ''*'') ! 0 \<noteq> CHR ''*''"
    by (cases pfx) (auto simp: star_free_def)
  have lst: "(pfx @ ''*'') ! length pfx = CHR ''*''" by simp
  have ne: "pfx @ ''*'' \<noteq> ''*''" using assms by simp
  show ?thesis using assms r hd lst ne
    by (auto simp: matchPattern_def go_index_def go_slice_def has_prefix_iff nat_add_distrib)
qed

lemma ignore_pattern_spec_match:
  assumes "ignore_pattern_spec pattern sender"
  shows "matchPattern sender pattern = Some True"
proof -
  consider (u) "pattern = ''*''"
    | (e) "star_free pattern" "sender = pattern"
    | (p) "pattern \<noteq> []" "last pattern = CHR ''*''" "butlast pattern \<noteq> []"
          "star_free (butlast pattern)" "has_prefix sender (butlast pattern)"
    | (s) "pattern \<noteq> []" "hd pattern = CHR ''*''" "tl pattern \<noteq> []"
          "has_suffix sender (tl pattern)"
    using assms unfolding ignore_pattern_spec_def by blast
  then show ?thesis
  proof cases
    case u
    then show ?thesis by (simp add: matchPattern_def)
  next
    case e
    then show ?thesis by (simp add: matchPattern_exact)
  next
    case p
    from p(1,2) have "pattern = butlast pattern @ ''*''"
      using append_butlast_last_id[of pattern] by simp
    with matchPattern_prefix[OF p(3,4), of sender] p(5) show ?thesis by simp
  next
    case s
    from s(1,2) have "pattern = CHR ''*'' # tl pattern" by (cases pattern) auto
    with matchPattern_suffix[OF s(3), of sender] s(4) show ?thesis by simp
  qed
qed

lemma ignore_sender_loop_hit:
  "pattern \<in> set ps \<Longrightarrow> matchPattern e (toLower pattern) = Some True \<Longrightarrow>
   ignore_sender_loop e ps = Some True"
proof (induction ps)
  case Nil
  then show ?case by simp
next
  case (Cons p ps)
  obtain b where b: "matchPattern e (toLower p) = Some b" using matchPattern_total by blast
  show ?case
  proof (cases b)
    case True
    with b show ?thesis by simp
  next
    case False
    with b Cons.prems have "pattern \<in> set ps" by auto
    with Cons b False show ?thesis by simp
  qed
qed

section \<open>The paths of \<open>Classify\<close>\<close>

lemma Classify_miss:
  "\<not> cache_hit L c now email \<Longrightarrow>
   Classify L c now email = Classify_uncached L c now email (getCacheKey L email)"
  by (auto simp: Classify_def cache_hit_def Let_def split: option.splits)

lemma Classify_hit:
  "cache c (getCacheKey L email) = Some cached \<Longrightarrow>
   Since now (Timestamp cached) < 24 * Hour \<Longrightarrow>
   Classify L c now email = Some ((cached, None), c)"
  by (simp add: Classify_def Let_def)

lemma Classify_uncached_sender:
  "ShouldIgnoreSender (config c) (From email) = Some True \<Longrightarrow>
   Classify_uncached L c now email k = Some ((ignored_sender_result email now, None), c)"
  by (simp add: Classify_uncached_def ignored_sender_result_def)

lemma Classify_uncached_subject:
  "ShouldIgnoreSender (config c) (From email) = Some False \<Longrightarrow>
   ShouldIgnoreSubject (config c) (Subject email) = Some True \<Longrightarrow>
   Classify_uncached L c now email k =
     Some ((\<lparr>EmailID = ID email, Category = ''newsletters'', Confidence_r = 0.95,
             Method = ''rules'', Tags_r = [''ignored'', ''auto''],
             Reasoning = ''Subject matches ignore pattern'', Timestamp = now\<rparr>, None), c)"
  by (simp add: Classify_uncached_def)

lemma Classify_uncached_rules:
  "ShouldIgnoreSender (config c) (From email) = Some False \<Longrightarrow>
   ShouldIgnoreSubject (config c) (Subject email) = Some False \<Longrightarrow>
   classifyByRules L c now email = Some r \<Longrightarrow>
   Classify_uncached L c now email k = Some ((r, None), c\<lparr>cache := (cache c)(k \<mapsto> r)\<rparr>)"
  by (simp add: Classify_uncached_def)

lemma rules_loop_none:
  "list_all (\<lambda>(category, rule). matchesRule L email rule = Some False) rs \<Longrightarrow>
   rules_loop L now email rs best hi = Some best"
  by (induction rs arbitrary: best hi) auto

lemma defaultClassification_first_match:
  "(Category (defaultClassification L now email),
    Confidence_r (defaultClassification L now email)) =
   first_match (strings_ToLower L (From email)) (strings_ToLower L (Subject email))
     heuristic_table"
  by (simp add: defaultClassification_def heuristic_table_def containsAny_def Let_def)

lemma defaultClassification_fields:
  "EmailID (defaultClassification L now email) = ID email"
  "Method (defaultClassification L now email) = ''rules''"
  "Tags_r (defaultClassification L now email) = [''default'', ''heuristic'']"
  "Timestamp (defaultClassification L now email) = now"
  by (simp_all add: defaultClassification_def Let_def split: prod.splits)

lemma rules_loop_Timestamp:
  "rules_loop L now email rs best hi = Some (Some r) \<Longrightarrow>
   (\<And>b. best = Some b \<Longrightarrow> Timestamp b = now) \<Longrightarrow> Timestamp r = now"
proof (induction rs arbitrary: best hi)
  case Nil
  then show ?case by simp
next
  case (Cons a rs)
  obtain category rule where a: "a = (category, rule)" by (cases a)
  obtain m where m: "matchesRule L email rule = Some m" using matchesRule_total by blast
  show ?case
  proof (cases "m \<and> Confidence rule > hi")
    case True
    with Cons.prems(1) m a have
      "rules_loop L now email rs
         (Some \<lparr>EmailID = ID email, Category = category, Confidence_r = Confidence rule,
                Method = ''rules'', Tags_r = Tags rule,
                Reasoning = ''Matched rule: '' @ Description rule, Timestamp = now\<rparr>)
         (Confidence rule) = Some (Some r)"
      by simp
    from Cons.IH[OF this] show ?thesis by simp
  next
    case False
    with Cons.prems(1) m a have "rules_loop L now email rs best hi = Some (Some r)"
      by auto
    from Cons.IH[OF this Cons.prems(2)] show ?thesis by simp
  qed
qed

lemma classifyByRules_Timestamp:
  "classifyByRules L c now email = Some r \<Longrightarrow> Timestamp r = now"
proof -
  assume h: "classifyByRules L c now email = Some r"
  obtain b where b: "rules_loop L now email (ClassificationRules (config c)) None 0.0 = Some b"
    using rules_loop_total by blast
  show ?thesis
  proof (cases b)
    case None
    with h b show ?thesis by (auto simp: classifyByRules_def defaultClassification_fields)
  next
    case (Some x)
    with h b have "x = r" by (simp add: classifyByRules_def)
    with rules_loop_Timestamp[of L now email _ None _ r] b Some show ?thesis by simp
  qed
qed

lemma Classify_total: "\<exists>r c'. Classify L c now email = Some ((r, None), c')"
proof (cases "cache_hit L c now email")
  case True
  then show ?thesis
    by (auto simp: cache_hit_def Classify_def Let_def split: option.splits)
next
  case False
  with Classify_miss[OF False] Classify_uncached_total[of L c now email "getCacheKey L email"]
  show ?thesis by simp
qed

lemma cache_hit_later:
  "\<not> cache_hit L c t1 email \<Longrightarrow> t1 \<le> t2 \<Longrightarrow> \<not> cache_hit L c t2 email"
  by (auto simp: cache_hit_def Since_def minDuration_def maxDuration_def Hour_def
      split: option.splits if_splits)

lemma Classify_frame:
  assumes "Classify L c now email = Some ((r, e), c')"
  shows "c' = c \<or>
         (c' = c\<lparr>cache := (cache c)(getCacheKey L email \<mapsto> r)\<rparr> \<and>
          \<not> cache_hit L c now email \<and>
          ShouldIgnoreSender (config c) (From email) = Some False \<and>
          ShouldIgnoreSubject (config c) (Subject email) = Some False)"
proof (cases "cache_hit L c now email")
  case True
  with assms show ?thesis
    by (auto simp: Classify_def cache_hit_def Let_def split: option.splits)
next
  case False
  obtain a where a: "ShouldIgnoreSender (config c) (From email) = Some a"
    using ShouldIgnoreSender_total by blast
  obtain b where b: "ShouldIgnoreSubject (config c) (Subject email) = Some b"
    using ShouldIgnoreSubject_total by blast
  obtain x where x: "classifyByRules L c now email = Some x"
    using classifyByRules_total by blast
  from assms Classify_miss[OF False] a b x False show ?thesis
    by (cases a; cases b) (auto simp: Classify_uncached_def)
qed

lemma marketing_ignored: "ShouldIgnoreSender (config c_marketing) (From promo) = Some True"
  by code_simp

lemma marketing_miss: "\<not> cache_hit L0 c_marketing t promo"
  by (simp add: cache_hit_def c_marketing_def NewClassifier_def)

lemma plain_classify:
  "Classify L0 (NewClassifier cfg_plain db0) t email0 =
     Some ((defaultClassification L0 t email0, None),
           (NewClassifier cfg_plain db0)\<lparr>cache :=
              (cache (NewClassifier cfg_plain db0))(getCacheKey L0 email0 \<mapsto>
                 defaultClassification L0 t email0)\<rparr>)"
proof -
  let ?c = "NewClassifier cfg_plain db0"
  have h1: "\<not> cache_hit L0 ?c t email0"
    by (simp add: cache_hit_def NewClassifier_def)
  have h2: "ShouldIgnoreSender (config ?c) (From email0) = Some False"
    by (simp add: ShouldIgnoreSender_def NewClassifier_def cfg_plain_def rules0_def)
  have h3: "ShouldIgnoreSubject (config ?c) (Subject email0) = Some False"
    by (simp add: ShouldIgnoreSubject_def NewClassifier_def cfg_plain_def rules0_def)
  have "classifyByRules L0 ?c t email0 = Some (defaultClassification L0 t email0)"
    by (simp add: classifyByRules_def NewClassifier_def cfg_plain_def)
  from Classify_uncached_rules[OF h2 h3 this] Classify_miss[OF h1] show ?thesis by simp
qed

section \<open>Machine arithmetic\<close>

lemma wrap64_id: "- (2 ^ 63) \<le> x \<Longrightarrow> x < 2 ^ 63 \<Longrightarrow> wrap64 x = x"
  by (simp add: wrap64_def)

lemma wrap64_range: "- (2 ^ 63) \<le> wrap64 x \<and> wrap64 x < 2 ^ 63"
proof -
  have "0 \<le> (x + 2 ^ 63) mod (2 ^ 64 :: int)" by simp
  moreover have "(x + 2 ^ 63) mod (2 ^ 64 :: int) < 2 ^ 64" by simp
  ultimately show ?thesis by (simp add: wrap64_def)
qed

lemma go_add_id: "- (2 ^ 63) \<le> a + b \<Longrightarrow> a + b < 2 ^ 63 \<Longrightarrow> go_add a b = a + b"
  by (simp add: go_add_def wrap64_id)

lemma go_quot_nonneg: "0 \<le> a \<Longrightarrow> 0 < b \<Longrightarrow> go_quot a b = a div b"
  by (cases "a = 0") (simp_all add: go_quot_def)

lemma go_quot_nonpos: "a \<le> 0 \<Longrightarrow> 0 < b \<Longrightarrow> go_quot a b \<le> 0"
  by (cases "a = 0") (simp_all add: go_quot_def pos_imp_zdiv_nonneg_iff)

lemma engagement_bonus_range:
  assumes "0 \<le> e" "e \<le> 100"
  shows "0 \<le> go_quot (go_mul e 15) 100 \<and> go_quot (go_mul e 15) 100 \<le> 15"
proof -
  have "go_mul e 15 = e * 15"
    using assms by (simp add: go_mul_def wrap64_id)
  then have "go_quot (go_mul e 15) 100 = (e * 15) div 100"
    using assms by (simp add: go_quot_nonneg)
  moreover have "0 \<le> (e * 15) div 100" using assms by simp
  moreover have "(e * 15) div 100 \<le> 15" using assms by simp
  ultimately show ?thesis by simp
qed

lemma engagement_bonus_bound: "go_quot (go_mul e 15) 100 \<le> 92233720368547758"
proof (cases "0 \<le> go_mul e 15")
  case True
  have "go_mul e 15 < 2 ^ 63" using wrap64_range[of "e * 15"] by (simp add: go_mul_def)
  then have "go_mul e 15 div 100 \<le> 92233720368547758" by simp
  with True show ?thesis by (simp add: go_quot_nonneg)
next
  case False
  then have "go_quot (go_mul e 15) 100 \<le> 0" by (simp add: go_quot_nonpos)
  then show ?thesis by simp
qed

lemma int_of_float64_range: "- (2 ^ 63) \<le> int_of_float64 x \<and> int_of_float64 x < 2 ^ 63"
  by (simp add: int_of_float64_def Let_def)

section \<open>The six factors\<close>

lemma HasUrgentKeyword_total: "\<exists>b k. HasUrgentKeyword pc t = Some (b, k)"
  using urgent_loop_total[of "toLower t"] by (auto simp: HasUrgentKeyword_def)

lemma GetSenderAnalytics_cases:
  "GetSenderAnalytics d a = (case sender_analytics d a of
      None \<Rightarrow> Inl (NotFound a) | Some sa \<Rightarrow> Inr sa)"
  by (simp add: GetSenderAnalytics_def)

lemma calculateSenderScore_range:
  "\<exists>s r. calculateSenderScore pe email = Some (s, r) \<and> 0 \<le> s \<and>
         s \<le> 92233720368547758 \<and> (engagement_in_range pe email \<longrightarrow> s \<le> 30)"
proof (cases "IsVIPSender (config_pe pe) (From email)")
  case True
  then show ?thesis by (simp add: calculateSenderScore_def)
next
  case vip: False
  obtain domain where d: "ExtractDomain (From email) = Some domain"
    using ExtractDomain_total by blast
  show ?thesis
  proof (cases "IsImportantDomain (config_pe pe) domain")
    case True
    with vip d show ?thesis by (simp add: calculateSenderScore_def)
  next
    case dom: False
    show ?thesis
    proof (cases "sender_analytics (db_pe pe) (From email)")
      case None
      with vip d dom show ?thesis
        by (simp add: calculateSenderScore_def GetSenderAnalytics_def)
    next
      case (Some sa)
      show ?thesis
      proof (cases "IsVIP sa")
        case True
        with vip d dom Some show ?thesis
          by (simp add: calculateSenderScore_def GetSenderAnalytics_def)
      next
        case False
        let ?b = "go_quot (go_mul (EngagementScore sa) 15) 100"
        have r: "engagement_in_range pe email \<longrightarrow> ?b \<le> 15"
          using Some engagement_bonus_range[of "EngagementScore sa"]
          by (simp add: engagement_in_range_def analytics_of_def sender_analytics_check_def)
        have u: "?b \<le> 92233720368547758" by (rule engagement_bonus_bound)
        show ?thesis
        proof (cases "?b > 0")
          case True
          with u have "go_add 0 ?b = ?b" by (simp add: go_add_id)
          with True vip d dom Some False r u show ?thesis
            by (auto simp: calculateSenderScore_def GetSenderAnalytics_def Let_def)
        next
          case nb: False
          with vip d dom Some False show ?thesis
            by (simp add: calculateSenderScore_def GetSenderAnalytics_def Let_def)
        qed
      qed
    qed
  qed
qed

lemma calculateKeywordScore_range:
  "\<exists>s r. calculateKeywordScore L pe email = Some (s, r) \<and> 0 \<le> s \<and> s \<le> 20"
proof -
  obtain b1 k1 where 1: "HasUrgentKeyword (config_pe pe) (Subject email) = Some (b1, k1)"
    using HasUrgentKeyword_total by blast
  obtain b2 k2 where 2: "HasUrgentKeyword (config_pe pe) (BodySnippet email) = Some (b2, k2)"
    using HasUrgentKeyword_total by blast
  show ?thesis using 1 2
    by (cases b1; cases b2) (auto simp: calculateKeywordScore_def split: option.splits)
qed

lemma calculateTemporalScore_range:
  "0 \<le> fst (calculateTemporalScore now email) \<and> fst (calculateTemporalScore now email) \<le> 15"
  by (simp add: calculateTemporalScore_def Let_def)

lemma calculateCategoryScore_range:
  "\<exists>s r cat pe'. calculateCategoryScore L pe now email = Some ((s, r, cat), pe') \<and>
      0 \<le> s \<and> s \<le> 15 \<and> config_pe pe' = config_pe pe \<and> db_pe pe' = db_pe pe"
proof (cases "classifier pe")
  case None
  then show ?thesis by (simp add: calculateCategoryScore_def)
next
  case (Some c)
  show ?thesis
  proof (cases "GetClassification c (ID email)")
    case (Inr x)
    with Some show ?thesis by (simp add: calculateCategoryScore_def Let_def)
  next
    case (Inl err)
    obtain x c' where "Classify L c now email = Some ((x, None), c')"
      using Classify_total by blast
    with Some Inl show ?thesis by (simp add: calculateCategoryScore_def Let_def)
  qed
qed

lemma calculateEngagementScore_range:
  "- (2 ^ 63) \<le> fst (calculateEngagementScore pe email) \<and>
   fst (calculateEngagementScore pe email) \<le> 10"
proof (cases "sender_analytics (db_pe pe) (From email)")
  case None
  then show ?thesis by (simp add: calculateEngagementScore_def GetSenderAnalytics_def)
next
  case (Some sa)
  show ?thesis
  proof (cases "TotalEmails sa > 0")
    case False
    with Some show ?thesis
      by (simp add: calculateEngagementScore_def GetSenderAnalytics_def)
  next
    case True
    let ?x = "fadd (fmul (fdiv (float64_of_int (ReadCount sa))
                               (float64_of_int (TotalEmails sa))) (Finite 5))
                   (fmul (fdiv (float64_of_int (ReplyCount sa))
                               (float64_of_int (TotalEmails sa))) (Finite 5))"
    have s: "fst (calculateEngagementScore pe email) =
        (if int_of_float64 ?x > 10 then 10 else int_of_float64 ?x)"
      using Some True
      by (simp add: calculateEngagementScore_def GetSenderAnalytics_def Let_def)
    from int_of_float64_range[of ?x] show ?thesis unfolding s by simp
  qed
qed

lemma calculateThreadScore_range:
  "0 \<le> fst (calculateThreadScore L email) \<and> fst (calculateThreadScore L email) \<le> 10"
  by (simp add: calculateThreadScore_def Let_def)

section \<open>The total\<close>

lemma calculateEngagementScore_db:
  "db_pe pe' = db_pe pe \<Longrightarrow> calculateEngagementScore pe' email = calculateEngagementScore pe email"
  by (simp add: calculateEngagementScore_def)

lemma applyTimeDecay_fst:
  "fst (applyTimeDecay pe now score receivedAt) =
     (if Enabled (TimeDecay (PriorityRules (config_pe pe))) \<and>
         Since now receivedAt >
           go_mul (MaxAgeHours (TimeDecay (PriorityRules (config_pe pe)))) Hour
      then decayed_f64 score
             (decay_factor (DecayRate (TimeDecay (PriorityRules (config_pe pe))))
                (Since now receivedAt))
      else score)"
  by (simp add: applyTimeDecay_def Let_def decayed_f64_def decay_factor_def)

lemma factor_sum_six:
  "factor_sum [''sender'' \<mapsto> a, ''keywords'' \<mapsto> b, ''temporal'' \<mapsto> c,
               ''category'' \<mapsto> d, ''engagement'' \<mapsto> e, ''thread'' \<mapsto> f] =
   a + b + c + d + e + f"
  by (simp add: factor_sum_def factor_def)

text \<open>
  The running total of \<open>CalculatePriority\<close> never wraps around: the six additions
  give the sum of the factors.
\<close>

lemma running_total:
  assumes "0 \<le> s1" "s1 \<le> 92233720368547758" "0 \<le> s2" "s2 \<le> 20" "0 \<le> s3" "s3 \<le> 15"
    "0 \<le> s4" "s4 \<le> 15" "- (2 ^ 63) \<le> s5" "s5 \<le> 10" "0 \<le> s6" "s6 \<le> 10"
  shows "go_add (go_add (go_add (go_add (go_add (go_add 0 s1) s2) s3) s4) s5) s6 =
         s1 + s2 + s3 + s4 + s5 + s6"
proof -
  have 1: "go_add 0 s1 = s1" using assms by (simp add: go_add_id)
  have 2: "go_add s1 s2 = s1 + s2" using assms by (simp add: go_add_id)
  have 3: "go_add (s1 + s2) s3 = s1 + s2 + s3" using assms by (simp add: go_add_id)
  have 4: "go_add (s1 + s2 + s3) s4 = s1 + s2 + s3 + s4" using assms by (simp add: go_add_id)
  have 5: "go_add (s1 + s2 + s3 + s4) s5 = s1 + s2 + s3 + s4 + s5"
    using assms by (simp add: go_add_id)
  have 6: "go_add (s1 + s2 + s3 + s4 + s5) s6 = s1 + s2 + s3 + s4 + s5 + s6"
    using assms by (simp add: go_add_id)
  show ?thesis by (simp only: 1 2 3 4 5 6)
qed

text \<open>The score before the final clamp, from the sum of the factors.\<close>

lemma CalculatePriority_char:
  assumes s: "calculateSenderScore pe email = Some (s1, r1)"
    and k: "calculateKeywordScore L pe email = Some (s2, r2)"
    and c: "calculateCategoryScore L pe now email = Some ((s4, r4, cat), pe')"
    and cfg: "config_pe pe' = config_pe pe" and dbe: "db_pe pe' = db_pe pe"
    and b1: "0 \<le> s1" "s1 \<le> 92233720368547758" and b2: "0 \<le> s2" "s2 \<le> 20"
    and b4: "0 \<le> s4" "s4 \<le> 15"
    and raw: "raw = s1 + s2 + fst (calculateTemporalScore now email) + s4 +
                    fst (calculateEngagementScore pe email) + fst (calculateThreadScore L email)"
  shows "\<exists>ps. CalculatePriority L pe now email = Some ((ps, None), pe') \<and>
           Factors ps = [''sender'' \<mapsto> s1, ''keywords'' \<mapsto> s2,
                         ''temporal'' \<mapsto> fst (calculateTemporalScore now email),
                         ''category'' \<mapsto> s4,
                         ''engagement'' \<mapsto> fst (calculateEngagementScore pe email),
                         ''thread'' \<mapsto> fst (calculateThreadScore L email)] \<and>
           factor_sum (Factors ps) = raw \<and>
           Score ps = clamp100
             (if decay_applies pe now email
              then decayed_f64 raw
                     (decay_factor (DecayRate (TimeDecay (PriorityRules (config_pe pe))))
                        (Since now (ReceivedAt email)))
              else raw)"
proof -
  obtain s3 r3 where t: "calculateTemporalScore now email = (s3, r3)"
    by (cases "calculateTemporalScore now email")
  obtain s5 r5 where e: "calculateEngagementScore pe email = (s5, r5)"
    by (cases "calculateEngagementScore pe email")
  obtain s6 r6 where h: "calculateThreadScore L email = (s6, r6)"
    by (cases "calculateThreadScore L email")
  have e': "calculateEngagementScore pe' email = (s5, r5)"
    using calculateEngagementScore_db[OF dbe, of email] e by simp
  have b3: "0 \<le> s3" "s3 \<le> 15" using calculateTemporalScore_range[of now email] t by simp_all
  have b5: "- (2 ^ 63) \<le> s5" "s5 \<le> 10"
    using calculateEngagementScore_range[of pe email] e by simp_all
  have b6: "0 \<le> s6" "s6 \<le> 10" using calculateThreadScore_range[of L email] h by simp_all
  have r: "raw = s1 + s2 + s3 + s4 + s5 + s6" using raw t e h by simp
  have chain: "go_add (go_add (go_add (go_add (go_add (go_add 0 s1) s2) s3) s4) s5) s6 = raw"
    unfolding r using b1 b2 b3 b4 b5 b6 by (rule running_total)
  obtain d dr where d: "applyTimeDecay pe' now raw (ReceivedAt email) = (d, dr)"
    by (cases "applyTimeDecay pe' now raw (ReceivedAt email)")
  have dv: "d = (if decay_applies pe now email
              then decayed_f64 raw
                     (decay_factor (DecayRate (TimeDecay (PriorityRules (config_pe pe))))
                        (Since now (ReceivedAt email)))
              else raw)"
    using applyTimeDecay_fst[of pe' now raw "ReceivedAt email"] d cfg
    by (simp add: decay_applies_def)
  define fin where "fin = (if Enabled (TimeDecay (PriorityRules (config_pe pe))) then d else raw)"
  have main: "\<exists>ps. CalculatePriority L pe now email = Some ((ps, None), pe') \<and>
           Factors ps = [''sender'' \<mapsto> s1, ''keywords'' \<mapsto> s2, ''temporal'' \<mapsto> s3,
                         ''category'' \<mapsto> s4, ''engagement'' \<mapsto> s5, ''thread'' \<mapsto> s6] \<and>
           Score ps = clamp100 fin"
    using s k c t e' h cfg d chain unfolding fin_def
    by (simp add: CalculatePriority_def Let_def clamp100_def max_def min_def
        del: fun_upd_apply)
  have "fin = (if decay_applies pe now email
              then decayed_f64 raw
                     (decay_factor (DecayRate (TimeDecay (PriorityRules (config_pe pe))))
                        (Since now (ReceivedAt email)))
              else raw)"
    unfolding fin_def using dv by (simp add: decay_applies_def)
  with main t e h raw show ?thesis
    by (auto simp: factor_sum_six simp del: fun_upd_apply)
qed

lemma CalculatePriority_total:
  "\<exists>ps pe' s1 r1 s2 r2 s4 r4 cat.
     calculateSenderScore pe email = Some (s1, r1) \<and>
     calculateKeywordScore L pe email = Some (s2, r2) \<and>
     calculateCategoryScore L pe now email = Some ((s4, r4, cat), pe') \<and>
     CalculatePriority L pe now email = Some ((ps, None), pe') \<and>
     Factors ps = [''sender'' \<mapsto> s1, ''keywords'' \<mapsto> s2,
                   ''temporal'' \<mapsto> fst (calculateTemporalScore now email),
                   ''category'' \<mapsto> s4,
                   ''engagement'' \<mapsto> fst (calculateEngagementScore pe email),
                   ''thread'' \<mapsto> fst (calculateThreadScore L email)] \<and>
     Score ps = clamp100
       (if decay_applies pe now email
        then decayed_f64 (factor_sum (Factors ps))
               (decay_factor (DecayRate (TimeDecay (PriorityRules (config_pe pe))))
                  (Since now (ReceivedAt email)))
        else factor_sum (Factors ps))"
proof -
  obtain s1 r1 where s: "calculateSenderScore pe email = Some (s1, r1)"
    and b1: "0 \<le> s1" "s1 \<le> 92233720368547758"
    using calculateSenderScore_range by blast
  obtain s2 r2 where k: "calculateKeywordScore L pe email = Some (s2, r2)"
    and b2: "0 \<le> s2" "s2 \<le> 20"
    using calculateKeywordScore_range by blast
  obtain s4 r4 cat pe' where c: "calculateCategoryScore L pe now email = Some ((s4, r4, cat), pe')"
    and b4: "0 \<le> s4" "s4 \<le> 15"
    and cfg: "config_pe pe' = config_pe pe" and dbe: "db_pe pe' = db_pe pe"
    using calculateCategoryScore_range by blast
  from CalculatePriority_char[OF s k c cfg dbe b1 b2 b4 refl] s k c show ?thesis by metis
qed

section \<open>Arithmetic of clamp and decay\<close>

lemma clamp100_range: "0 \<le> clamp100 x \<and> clamp100 x \<le> 100"
  by (simp add: clamp100_def)

lemma clamp100_id: "0 \<le> x \<Longrightarrow> x \<le> 100 \<Longrightarrow> clamp100 x = x"
  by (simp add: clamp100_def)

lemma clamp100_nonpos: "x \<le> 0 \<Longrightarrow> clamp100 x = 0"
  by (simp add: clamp100_def)

text \<open>Rounding keeps the sign: a negative number is rounded to a value with the sign bit set.\<close>

lemma pow2_pos: "0 < pow2 e"
  by (simp add: pow2_def)

lemma round_half_even_nonneg: "0 \<le> y \<Longrightarrow> 0 \<le> round_half_even y"
  by (auto simp: round_half_even_def Let_def)

lemma round64_neg:
  assumes "x < 0"
  shows "fsign (round64 x)"
proof -
  define e where "e = max (- 1022) (ilog2 \<bar>x\<bar>)"
  define m where "m = round_half_even (\<bar>x\<bar> / pow2 (e - 52))"
  define r where "r = of_int m * pow2 (e - 52)"
  have "0 \<le> \<bar>x\<bar> / pow2 (e - 52)" using pow2_pos[of "e - 52"] by simp
  then have "0 \<le> m" unfolding m_def by (rule round_half_even_nonneg)
  then have r: "0 \<le> r" unfolding r_def using pow2_pos[of "e - 52"] by simp
  have "round64 x =
     (if 1024 \<le> e \<or> (e = 1023 \<and> m = 2 ^ 53) then NegInf
      else if r = 0 then NegZero
      else Finite (- r))"
    unfolding round64_def Let_def e_def[symmetric] m_def[symmetric] r_def[symmetric]
    using assms by simp
  moreover have "r \<noteq> 0 \<Longrightarrow> 0 < r" using r by simp
  ultimately show ?thesis by (simp del: of_int_eq_0_iff)
qed

lemma int_of_float64_fsign: "fsign y \<Longrightarrow> int_of_float64 y \<le> 0"
  by (cases y) (auto simp: int_of_float64_def Let_def is_inf_def ceiling_le_zero)

text \<open>
  A value with the sign bit set, multiplied by a decay factor, which is not less than
  zero, converts to an integer that is not positive; so does \<open>+0\<close> multiplied by it.
\<close>

lemma fmul_neg_nonneg:
  assumes "fsign x" and "\<not> flt f (Finite 0)"
  shows "int_of_float64 (fmul x f) \<le> 0"
proof (cases "x = NaN \<or> f = NaN \<or> is_inf x \<or> is_inf f \<or> is_zero x \<or> is_zero f")
  case True
  with assms show ?thesis
    by (cases x; cases f)
       (auto simp: fmul_def flt_def is_inf_def is_zero_def inf_of_def zero_of_def
          int_of_float64_def)
next
  case False
  then obtain a r where x: "x = Finite a" and f: "f = Finite r"
    by (cases x; cases f) (auto simp: is_inf_def is_zero_def)
  from assms x f False have "a < 0" "0 < r" by (auto simp: flt_def is_zero_def)
  then have "a * r < 0" by (simp add: mult_less_0_iff)
  then have "fsign (round64 (a * r))" by (rule round64_neg)
  then have "int_of_float64 (round64 (a * r)) \<le> 0" by (rule int_of_float64_fsign)
  moreover have "fmul x f = round64 (a * r)"
    using False x f by (simp add: fmul_def)
  ultimately show ?thesis by simp
qed

lemma fmul_zero_nonneg:
  assumes "\<not> flt f (Finite 0)"
  shows "int_of_float64 (fmul (Finite 0) f) \<le> 0"
  using assms
  by (cases f)
     (auto simp: fmul_def flt_def is_inf_def is_zero_def inf_of_def zero_of_def
        int_of_float64_def)

lemma decay_factor_not_negative: "\<not> flt (decay_factor rate age) (Finite 0)"
  by (simp add: decay_factor_def Let_def flt_def)

lemma float64_of_int_neg: "n < 0 \<Longrightarrow> fsign (float64_of_int n)"
  unfolding float64_of_int_def by (rule round64_neg) simp

lemma float64_of_int_zero: "float64_of_int 0 = Finite 0"
  by (simp add: float64_of_int_def round64_def)

text \<open>
  Decaying the raw sum and clamping once gives what clamping, decaying and clamping
  again gives, when the raw sum is at most 100.
\<close>

lemma code_pipeline_is_spec_pipeline:
  assumes "raw \<le> 100"
  shows "clamp100 (decayed_f64 raw (decay_factor rate age)) =
         spec_decayed_score_f64 raw rate age"
proof (cases "0 \<le> raw")
  case True
  with assms show ?thesis by (simp add: spec_decayed_score_f64_def clamp100_id)
next
  case False
  then have "fsign (float64_of_int raw)" by (simp add: float64_of_int_neg)
  then have "decayed_f64 raw (decay_factor rate age) \<le> 0"
    unfolding decayed_f64_def using decay_factor_not_negative by (rule fmul_neg_nonneg)
  then have 1: "clamp100 (decayed_f64 raw (decay_factor rate age)) = 0"
    by (rule clamp100_nonpos)
  have "decayed_f64 0 (decay_factor rate age) \<le> 0"
    unfolding decayed_f64_def float64_of_int_zero
    using decay_factor_not_negative by (rule fmul_zero_nonneg)
  then have 2: "clamp100 (decayed_f64 0 (decay_factor rate age)) = 0"
    by (rule clamp100_nonpos)
  have "clamp100 raw = 0" using False by (simp add: clamp100_nonpos)
  with 1 2 show ?thesis by (simp add: spec_decayed_score_f64_def)
qed

text \<open>
  When the configured maximum age fits a \<open>time.Duration\<close>, the test of
  \<open>applyTimeDecay\<close> compares the numbers themselves.
\<close>

lemma decay_applies_iff:
  assumes "max_age_fits pe"
  shows "decay_applies pe now email =
         (Enabled (TimeDecay (PriorityRules (config_pe pe))) \<and>
          age_exceeds_max_age pe now email)"
proof -
  let ?m = "MaxAgeHours (TimeDecay (PriorityRules (config_pe pe)))"
  have lo: "- (2 ^ 63) < ?m * Hour" and hi: "?m * Hour < 2 ^ 63 - 1"
    using assms by (simp_all add: max_age_fits_def Hour_def)
  then have "go_mul ?m Hour = ?m * Hour" by (simp add: go_mul_def wrap64_id)
  moreover have "(Since now (ReceivedAt email) > ?m * Hour) =
                 (now - ReceivedAt email > ?m * Hour)"
    using lo hi by (auto simp: Since_def minDuration_def maxDuration_def)
  ultimately show ?thesis by (simp add: decay_applies_def age_exceeds_max_age_def)
qed

section \<open>The winner of the rule loop\<close>

lemma rules_loop_stable:
  "list_all (\<lambda>(category, rule).
      matchesRule L email rule = Some True \<longrightarrow> Confidence rule \<le> hi) rs \<Longrightarrow>
   rules_loop L now email rs best hi = Some best"
proof (induction rs)
  case Nil
  show ?case by simp
next
  case (Cons a rs)
  obtain category rule where a: "a = (category, rule)" by (cases a)
  obtain m where m: "matchesRule L email rule = Some m" using matchesRule_total by blast
  from Cons.prems a m have "\<not> (m \<and> Confidence rule > hi)" by auto
  with Cons a m show ?case by auto
qed

lemma rules_loop_winner:
  assumes "(category, rule) \<in> set rs"
    and "matchesRule L email rule = Some True"
    and "hi < Confidence rule"
    and "list_all (\<lambda>(category', rule').
           (category', rule') \<noteq> (category, rule) \<longrightarrow>
           matchesRule L email rule' = Some True \<longrightarrow>
           Confidence rule' < Confidence rule) rs"
  shows "rules_loop L now email rs best hi =
           Some (Some \<lparr>EmailID = ID email, Category = category,
                       Confidence_r = Confidence rule, Method = ''rules'',
                       Tags_r = Tags rule,
                       Reasoning = ''Matched rule: '' @ Description rule,
                       Timestamp = now\<rparr>)"
  using assms
proof (induction rs arbitrary: best hi)
  case Nil
  then show ?case by simp
next
  case (Cons a rs)
  let ?w = "\<lparr>EmailID = ID email, Category = category, Confidence_r = Confidence rule,
             Method = ''rules'', Tags_r = Tags rule,
             Reasoning = ''Matched rule: '' @ Description rule, Timestamp = now\<rparr>"
  obtain category' rule' where a: "a = (category', rule')" by (cases a)
  obtain m where m: "matchesRule L email rule' = Some m" using matchesRule_total by blast
  have rest: "list_all (\<lambda>(category', rule').
           (category', rule') \<noteq> (category, rule) \<longrightarrow>
           matchesRule L email rule' = Some True \<longrightarrow>
           Confidence rule' < Confidence rule) rs"
    using Cons.prems(4) by simp
  show ?case
  proof (cases "a = (category, rule)")
    case True
    have "list_all (\<lambda>(category', rule').
        matchesRule L email rule' = Some True \<longrightarrow> Confidence rule' \<le> Confidence rule) rs"
      using rest by (auto simp: list_all_iff)
    then have "rules_loop L now email rs (Some ?w) (Confidence rule) = Some (Some ?w)"
      by (rule rules_loop_stable)
    with True Cons.prems(2,3) show ?thesis by simp
  next
    case False
    with Cons.prems(1) have mem: "(category, rule) \<in> set rs" by simp
    show ?thesis
    proof (cases "m \<and> Confidence rule' > hi")
      case True
      with Cons.prems(4) a m False have lt: "Confidence rule' < Confidence rule" by auto
      from Cons.IH[OF mem Cons.prems(2) lt rest] True a m show ?thesis by simp
    next
      case no: False
      from Cons.IH[OF mem Cons.prems(2) Cons.prems(3) rest] no a m show ?thesis by auto
    qed
  qed
qed

section \<open>Claim C1: the score and the factors\<close>

text \<open>
  C1 fails at the code in its last part, that a score to which decay is applied never
  exceeds the clamped sum of the factors. \<open>applyTimeDecay\<close>, which by its comment
  ``reduces priority for old emails'', bounds the decay factor below by 0 and not
  above by 1, and \<open>Validate\<close> does not look at the decay settings. With decay rate
  \<open>-1\<close>, a maximum age of 24 hours and the message \<open>old_mail\<close> two days old, decay
  applies, the six factors add up to 17 and the score returned is 51.
\<close>

theorem decay_can_raise_score:
  "Validate L0 (decay_cfg (Finite (- 1))) \<and>
   decay_applies (pe_decay (Finite (- 1))) (48 * Hour) old_mail \<and>
   map_option (factor_sum \<circ> Factors \<circ> fst \<circ> fst)
     (CalculatePriority L0 (pe_decay (Finite (- 1))) (48 * Hour) old_mail) = Some 17 \<and>
   map_option (Score \<circ> fst \<circ> fst)
     (CalculatePriority L0 (pe_decay (Finite (- 1))) (48 * Hour) old_mail) = Some 51 \<and>
   \<not> (51 \<le> clamp100 17)"
  by code_simp

text \<open>
  The same happens with a decay rate that is not negative, when the configured
  maximum age does not fit a \<open>time.Duration\<close>: \<open>MaxAgeHours\<close> 3000000 wraps around to
  a negative threshold, so that a message dated one hour ahead of the clock, which is
  not older than the maximum age, is decayed with a negative age in hours. With rate
  1/2 the factors add up to 60 and the score returned is 61.
\<close>

lemma max_age_overflow_raises_score:
  "Validate L0 overflow_cfg \<and>
   \<not> age_exceeds_max_age pe_overflow 0 early_mail \<and>
   decay_applies pe_overflow 0 early_mail \<and>
   map_option (factor_sum \<circ> Factors \<circ> fst \<circ> fst)
     (CalculatePriority L0 pe_overflow 0 early_mail) = Some 60 \<and>
   map_option (Score \<circ> fst \<circ> fst)
     (CalculatePriority L0 pe_overflow 0 early_mail) = Some 61"
  by code_simp

text \<open>
  The first two parts of C1 hold. \<open>CalculatePriority\<close> returns a score with a \<open>nil\<close>
  error for every message, and the score is between 0 and 100. When decay is disabled
  or the age of the message does not exceed the threshold that \<open>applyTimeDecay\<close>
  computes, the score is the sum of the six recorded contributions, clamped to that
  range.
\<close>

theorem priority_score_range:
  "\<exists>ps pe'. CalculatePriority L pe now email = Some ((ps, None), pe') \<and>
      0 \<le> Score ps \<and> Score ps \<le> 100 \<and>
      (\<not> decay_applies pe now email \<longrightarrow> Score ps = clamp100 (factor_sum (Factors ps)))"
proof -
  obtain ps pe' where r: "CalculatePriority L pe now email = Some ((ps, None), pe')"
    and sc: "Score ps = clamp100
       (if decay_applies pe now email
        then decayed_f64 (factor_sum (Factors ps))
               (decay_factor (DecayRate (TimeDecay (PriorityRules (config_pe pe))))
                  (Since now (ReceivedAt email)))
        else factor_sum (Factors ps))"
    using CalculatePriority_total[of pe email L now] by blast
  have 1: "0 \<le> Score ps \<and> Score ps \<le> 100"
    unfolding sc by (rule clamp100_range)
  have 2: "\<not> decay_applies pe now email \<longrightarrow> Score ps = clamp100 (factor_sum (Factors ps))"
    using sc by simp
  from r 1 2 show ?thesis by blast
qed

theorem priority_score_range_witness:
  "\<exists>ps pe'. CalculatePriority L0 pe_plain 0 old_mail = Some ((ps, None), pe') \<and>
      0 \<le> Score ps \<and> Score ps \<le> 100 \<and> Score ps = clamp100 (factor_sum (Factors ps))"
proof -
  have a: "\<not> decay_applies pe_plain 0 old_mail"
    by (simp add: decay_applies_def pe_plain_def cfg_personal_def rules0_def no_decay_def)
  from priority_score_range[of L0 pe_plain 0 old_mail] a show ?thesis by blast
qed

section \<open>Claim C2: the caps of the factors\<close>

text \<open>
  C2 fails at the code for the engagement factor. \<open>calculateEngagementScore\<close>, by its
  comment worth ``0-10 points'' (as the field \<open>EngagementScore int // 0-10\<close> says),
  caps the contribution at 10 and has no lower bound, where \<open>calculateCategoryScore\<close>
  beside it bounds its contribution on both sides; the store constrains the
  engagement score of an analytics record and not its counts. An analytics record of
  the sender with engagement score 50, one message and a read count of \<open>-3\<close> gives
  the contribution \<open>-15\<close>.
\<close>

theorem engagement_can_be_negative:
  "analytics_of (pe_with (Finite 0) (analytics 1 (- 3) 0 50)) old_mail =
     Some (analytics 1 (- 3) 0 50) \<and>
   engagement_in_range (pe_with (Finite 0) (analytics 1 (- 3) 0 50)) old_mail \<and>
   fst (calculateEngagementScore (pe_with (Finite 0) (analytics 1 (- 3) 0 50)) old_mail) =
     - 15"
  by code_simp

text \<open>
  Counts that are not negative do not help when they are large: with one message and a
  read count of \<open>4 * 10^18\<close> the sum of the rates is \<open>2 * 10^19\<close>, which is outside the
  range of \<open>int\<close>, and the conversion gives the contribution \<open>-2^63\<close>.
\<close>

lemma engagement_can_overflow:
  "engagement_in_range (pe_with (Finite 0) (analytics 1 (4 * 10 ^ 18) 0 50)) old_mail \<and>
   fst (calculateEngagementScore (pe_with (Finite 0) (analytics 1 (4 * 10 ^ 18) 0 50))
          old_mail) = - (2 ^ 63)"
  by code_simp

text \<open>
  The other caps hold. When the analytics record of the sender, if the store has one,
  has an engagement score between 0 and 100, every factor is computed (no call panics),
  sender, keywords, temporal, category and thread lie within their caps of 30, 20,
  15, 15 and 10, and the engagement factor is at most 10.
\<close>

theorem factor_caps:
  assumes "engagement_in_range pe email"
  shows "(\<exists>s r. calculateSenderScore pe email = Some (s, r) \<and> 0 \<le> s \<and> s \<le> 30) \<and>
         (\<exists>s r. calculateKeywordScore L pe email = Some (s, r) \<and> 0 \<le> s \<and> s \<le> 20) \<and>
         0 \<le> fst (calculateTemporalScore now email) \<and>
         fst (calculateTemporalScore now email) \<le> 15 \<and>
         (\<exists>s r cat pe'. calculateCategoryScore L pe now email = Some ((s, r, cat), pe') \<and>
            0 \<le> s \<and> s \<le> 15) \<and>
         fst (calculateEngagementScore pe email) \<le> 10 \<and>
         0 \<le> fst (calculateThreadScore L email) \<and>
         fst (calculateThreadScore L email) \<le> 10"
proof -
  have 1: "\<exists>s r. calculateSenderScore pe email = Some (s, r) \<and> 0 \<le> s \<and> s \<le> 30"
    using calculateSenderScore_range[of pe email] assms by blast
  have 2: "\<exists>s r. calculateKeywordScore L pe email = Some (s, r) \<and> 0 \<le> s \<and> s \<le> 20"
    by (rule calculateKeywordScore_range)
  have 4: "\<exists>s r cat pe'. calculateCategoryScore L pe now email = Some ((s, r, cat), pe') \<and>
            0 \<le> s \<and> s \<le> 15"
    using calculateCategoryScore_range[of L pe now email] by blast
  have 5: "fst (calculateEngagementScore pe email) \<le> 10"
    using calculateEngagementScore_range[of pe email] by blast
  from 1 2 4 5 calculateTemporalScore_range[of now email] calculateThreadScore_range[of L email]
  show ?thesis by blast
qed

theorem factor_caps_witness:
  "fst (calculateEngagementScore (pe_with (Finite 0) (analytics 4 2 1 50)) old_mail) = 3 \<and>
   (\<exists>s r. calculateSenderScore (pe_with (Finite 0) (analytics 4 2 1 50)) old_mail =
      Some (s, r) \<and> 0 \<le> s \<and> s \<le> 30)"
proof -
  have a: "engagement_in_range (pe_with (Finite 0) (analytics 4 2 1 50)) old_mail"
    by (simp add: engagement_in_range_def analytics_of_def pe_with_def db_with_def
        old_mail_def analytics_def sender_analytics_check_def)
  have c: "fst (calculateEngagementScore (pe_with (Finite 0) (analytics 4 2 1 50)) old_mail) = 3"
    by code_simp
  from factor_caps[OF a, of L0 0] c show ?thesis by blast
qed

section \<open>Claim C3: classifying the same message twice\<close>

text \<open>
  C3, as stated, fails: a message whose sender is ignored is classified afresh by every
  call, and two calls one nanosecond apart return results with different timestamps.
\<close>

theorem repeated_classification_counterexample:
  "Classify L0 c_marketing 5 promo = Some ((ignored_sender_result promo 5, None), c_marketing) \<and>
   Classify L0 c_marketing 6 promo = Some ((ignored_sender_result promo 6, None), c_marketing) \<and>
   Since 6 5 < 24 * Hour \<and>
   ignored_sender_result promo 5 \<noteq> ignored_sender_result promo 6"
  using Classify_miss[OF marketing_miss] Classify_uncached_sender[OF marketing_ignored, of L0]
  by (simp add: ignored_sender_result_def Since_def minDuration_def maxDuration_def Hour_def)

text \<open>
  C3, amended. When the first call, at time \<open>t1\<close>, is answered from the cache or reaches
  the rules (sender and subject are not ignored), it returns a result \<open>r1\<close> and a
  classifier \<open>c1\<close> such that every later call made less than 24 hours after the
  timestamp of \<open>r1\<close> returns \<open>r1\<close> itself, all fields and the timestamp included, and
  leaves \<open>c1\<close> as it is. The timestamp of \<open>r1\<close> is \<open>t1\<close> unless the first call was
  itself a cache hit.
\<close>

theorem repeated_classification_cached:
  assumes "cache_hit L c t1 email \<or>
           (ShouldIgnoreSender (config c) (From email) = Some False \<and>
            ShouldIgnoreSubject (config c) (Subject email) = Some False)"
  shows "\<exists>r1 c1. Classify L c t1 email = Some ((r1, None), c1) \<and>
           (\<not> cache_hit L c t1 email \<longrightarrow> Timestamp r1 = t1) \<and>
           (Since t2 (Timestamp r1) < 24 * Hour \<longrightarrow>
              Classify L c1 t2 email = Some ((r1, None), c1))"
proof (cases "cache_hit L c t1 email")
  case True
  then obtain cached where k: "cache c (getCacheKey L email) = Some cached"
    and f: "Since t1 (Timestamp cached) < 24 * Hour"
    by (auto simp: cache_hit_def split: option.splits)
  have "Classify L c t1 email = Some ((cached, None), c)"
    using k f by (rule Classify_hit)
  moreover have "Since t2 (Timestamp cached) < 24 * Hour \<longrightarrow>
      Classify L c t2 email = Some ((cached, None), c)"
    using Classify_hit[OF k] by blast
  ultimately show ?thesis using True by blast
next
  case False
  with assms have s: "ShouldIgnoreSender (config c) (From email) = Some False"
    and u: "ShouldIgnoreSubject (config c) (Subject email) = Some False" by auto
  obtain r where r: "classifyByRules L c t1 email = Some r"
    using classifyByRules_total by blast
  let ?c1 = "c\<lparr>cache := (cache c)(getCacheKey L email \<mapsto> r)\<rparr>"
  have 1: "Classify L c t1 email = Some ((r, None), ?c1)"
    using Classify_miss[OF False] Classify_uncached_rules[OF s u r] by simp
  have 2: "Timestamp r = t1" using r by (rule classifyByRules_Timestamp)
  have k: "cache ?c1 (getCacheKey L email) = Some r" by simp
  have 3: "Since t2 (Timestamp r) < 24 * Hour \<longrightarrow>
      Classify L ?c1 t2 email = Some ((r, None), ?c1)"
    using Classify_hit[OF k] by blast
  from 1 2 3 show ?thesis by blast
qed

theorem repeated_classification_cached_witness:
  "\<exists>r1 c1. Classify L0 (NewClassifier cfg_plain db0) 7 email0 = Some ((r1, None), c1) \<and>
     Timestamp r1 = 7 \<and> Classify L0 c1 8 email0 = Some ((r1, None), c1)"
proof -
  let ?c = "NewClassifier cfg_plain db0"
  have h: "cache_hit L0 ?c 7 email0 \<or>
           (ShouldIgnoreSender (config ?c) (From email0) = Some False \<and>
            ShouldIgnoreSubject (config ?c) (Subject email0) = Some False)"
    by (simp add: ShouldIgnoreSender_def ShouldIgnoreSubject_def NewClassifier_def
        cfg_plain_def rules0_def)
  have m: "\<not> cache_hit L0 ?c 7 email0"
    by (simp add: cache_hit_def NewClassifier_def)
  from repeated_classification_cached[OF h, of 8] obtain r1 c1 where
    1: "Classify L0 ?c 7 email0 = Some ((r1, None), c1)"
    and 2: "\<not> cache_hit L0 ?c 7 email0 \<longrightarrow> Timestamp r1 = 7"
    and 3: "Since 8 (Timestamp r1) < 24 * Hour \<longrightarrow> Classify L0 c1 8 email0 = Some ((r1, None), c1)"
    by blast
  from 2 m have t: "Timestamp r1 = 7" by simp
  then have "Since 8 (Timestamp r1) < 24 * Hour" by (simp add: Since_def minDuration_def maxDuration_def Hour_def)
  with 1 3 t show ?thesis by blast
qed

section \<open>Claim C4: the order of clamp and decay\<close>

text \<open>
  C4, as stated, fails: the code computes the decay in \<open>float64\<close> arithmetic, every
  operation rounded, and the result can be one less than the formula of the claim.
  With the domain of the sender important, category \<open>personal\<close> worth 5, decay rate 1
  and a maximum age of 10 hours, the message \<open>new_mail\<close>, 20 hours old, has factors
  that add up to 30. The formula of the claim gives \<open>\<lfloor>30 * (1 - 20/24)\<rfloor> = 5\<close>; in the
  code \<open>20/24\<close> is rounded, the factor is a little less than 1/6, the product a
  little less than 5, and the score returned is 4.
\<close>

theorem decay_is_rounded:
  "Validate L0 rounding_cfg \<and>
   engagement_in_range pe_rounding new_mail \<and>
   Enabled (TimeDecay (PriorityRules (config_pe pe_rounding))) \<and>
   age_exceeds_max_age pe_rounding (20 * Hour) new_mail \<and>
   Hours (Since (20 * Hour) (ReceivedAt new_mail)) = Finite 20 \<and>
   map_option (factor_sum \<circ> Factors \<circ> fst \<circ> fst)
     (CalculatePriority L0 pe_rounding (20 * Hour) new_mail) = Some 30 \<and>
   map_option (Score \<circ> fst \<circ> fst)
     (CalculatePriority L0 pe_rounding (20 * Hour) new_mail) = Some 4 \<and>
   spec_decayed_score 30 1 20 = 5"
  by code_simp

text \<open>
  C4, amended. Let the analytics record of the sender, if the store has one, have an
  engagement score within the range of the store's \<open>CHECK\<close> constraint, and let the
  configured maximum age be at most 2562047 hours in either direction, so that it
  fits a \<open>time.Duration\<close>. Whenever decay is enabled and the age of the message
  exceeds the maximum age, \<open>CalculatePriority\<close> returns a score, and that score is
  the formula of the claim evaluated in \<open>float64\<close> arithmetic: the sum of the factors
  is clamped to the range from 0 to 100 and converted to \<open>float64\<close>, multiplied by
  the decay factor \<open>1 - decayRate * (ageInHours / 24)\<close> (or 0 if that is negative),
  where \<open>ageInHours\<close> is \<open>Duration.Hours()\<close> of the age and every operation is
  rounded, converted by \<open>int(x)\<close> and clamped again. It is also what the code does:
  the decay of the raw sum of the factors, clamped once.
\<close>

theorem decay_after_clamp:
  assumes "engagement_in_range pe email"
    and "max_age_fits pe"
    and "Enabled (TimeDecay (PriorityRules (config_pe pe)))"
    and "age_exceeds_max_age pe now email"
  shows "\<exists>ps pe'. CalculatePriority L pe now email = Some ((ps, None), pe') \<and>
      factor_sum (Factors ps) \<le> 100 \<and>
      Score ps = spec_decayed_score_f64 (factor_sum (Factors ps))
                   (DecayRate (TimeDecay (PriorityRules (config_pe pe))))
                   (Since now (ReceivedAt email)) \<and>
      Score ps = clamp100 (decayed_f64 (factor_sum (Factors ps))
                   (decay_factor (DecayRate (TimeDecay (PriorityRules (config_pe pe))))
                      (Since now (ReceivedAt email))))"
proof -
  let ?rate = "DecayRate (TimeDecay (PriorityRules (config_pe pe)))"
  let ?age = "Since now (ReceivedAt email)"
  have da: "decay_applies pe now email"
    using assms(2,3,4) by (simp add: decay_applies_iff)
  obtain ps pe' s1 r1 s2 r2 s4 r4 cat where
    s: "calculateSenderScore pe email = Some (s1, r1)"
    and k: "calculateKeywordScore L pe email = Some (s2, r2)"
    and c: "calculateCategoryScore L pe now email = Some ((s4, r4, cat), pe')"
    and r: "CalculatePriority L pe now email = Some ((ps, None), pe')"
    and F: "Factors ps = [''sender'' \<mapsto> s1, ''keywords'' \<mapsto> s2,
                   ''temporal'' \<mapsto> fst (calculateTemporalScore now email),
                   ''category'' \<mapsto> s4,
                   ''engagement'' \<mapsto> fst (calculateEngagementScore pe email),
                   ''thread'' \<mapsto> fst (calculateThreadScore L email)]"
    and sc: "Score ps = clamp100
       (if decay_applies pe now email
        then decayed_f64 (factor_sum (Factors ps)) (decay_factor ?rate ?age)
        else factor_sum (Factors ps))"
    using CalculatePriority_total[of pe email L now] by blast
  have sum: "factor_sum (Factors ps) =
      s1 + s2 + fst (calculateTemporalScore now email) + s4 +
      fst (calculateEngagementScore pe email) + fst (calculateThreadScore L email)"
    unfolding F by (rule factor_sum_six)
  have 1: "factor_sum (Factors ps) \<le> 100"
  proof -
    have "s1 \<le> 30" using calculateSenderScore_range[of pe email] s assms(1) by auto
    moreover have "s2 \<le> 20" using calculateKeywordScore_range[of L pe email] k by auto
    moreover have "s4 \<le> 15" using calculateCategoryScore_range[of L pe now email] c by auto
    moreover note calculateTemporalScore_range[of now email]
      calculateEngagementScore_range[of pe email] calculateThreadScore_range[of L email]
    ultimately show ?thesis unfolding sum by linarith
  qed
  have 2: "Score ps = clamp100 (decayed_f64 (factor_sum (Factors ps)) (decay_factor ?rate ?age))"
    using sc da by simp
  have 3: "Score ps = spec_decayed_score_f64 (factor_sum (Factors ps)) ?rate ?age"
    unfolding 2 using 1 by (rule code_pipeline_is_spec_pipeline)
  from r 1 2 3 show ?thesis by blast
qed

theorem decay_after_clamp_witness:
  "\<exists>ps pe'. CalculatePriority L0 (pe_with (Finite (1 / 4)) (analytics 4 2 1 50)) (48 * Hour)
         old_mail = Some ((ps, None), pe') \<and>
     factor_sum (Factors ps) \<le> 100 \<and>
     Score ps = spec_decayed_score_f64 (factor_sum (Factors ps)) (Finite (1 / 4))
                  (Since (48 * Hour) (ReceivedAt old_mail))"
proof -
  have a: "engagement_in_range (pe_with (Finite (1 / 4)) (analytics 4 2 1 50)) old_mail"
    by (simp add: engagement_in_range_def analytics_of_def pe_with_def db_with_def
        old_mail_def analytics_def sender_analytics_check_def)
  have b: "max_age_fits (pe_with (Finite (1 / 4)) (analytics 4 2 1 50))"
    by (simp add: max_age_fits_def pe_with_def decay_cfg_def rules0_def)
  have c: "Enabled (TimeDecay (PriorityRules
      (config_pe (pe_with (Finite (1 / 4)) (analytics 4 2 1 50)))))"
    by (simp add: pe_with_def decay_cfg_def rules0_def)
  have d: "age_exceeds_max_age (pe_with (Finite (1 / 4)) (analytics 4 2 1 50)) (48 * Hour)
      old_mail"
    by (simp add: age_exceeds_max_age_def pe_with_def decay_cfg_def rules0_def old_mail_def
        Hour_def)
  have e: "DecayRate (TimeDecay (PriorityRules
      (config_pe (pe_with (Finite (1 / 4)) (analytics 4 2 1 50))))) = Finite (1 / 4)"
    by (simp add: pe_with_def decay_cfg_def rules0_def)
  from decay_after_clamp[OF a b c d, of L0] e show ?thesis by auto
qed

section \<open>Claim C5: the rule of highest confidence\<close>

text \<open>
  C5 fails on a rule of confidence 0. The configuration \<open>cfg_zero\<close> passes
  \<open>Validate\<close>; its only rule matches the message \<open>from_boss\<close>, so it is the matching
  rule of strictly greatest confidence; \<open>Classify\<close> returns the default
  classification (\<open>personal\<close>, 0.5, tags \<open>default\<close> and \<open>heuristic\<close>) and not
  the rule's category \<open>work\<close>.
\<close>

theorem zero_confidence_rule_never_wins:
  "Validate L0 cfg_zero \<and>
   ClassificationRules cfg_zero = [(''work'', rule_zero)] \<and>
   matchesRule L0 from_boss rule_zero = Some True \<and>
   map_option fst (Classify L0 (NewClassifier cfg_zero db0) 0 from_boss) =
     Some (\<lparr>EmailID = ''m3'', Category = ''personal'', Confidence_r = 0.5,
             Method = ''rules'', Tags_r = [''default'', ''heuristic''],
             Reasoning = ''Default classification - no specific rules matched'',
             Timestamp = 0\<rparr>, None)"
  by code_simp

text \<open>
  For a winning rule of positive confidence the selection is by confidence: when the
  message reaches the rules and a configured rule matches with a confidence that is
  positive and strictly greater than that of every other matching rule, \<open>Classify\<close>
  returns and caches that rule's category, confidence and tags, in whatever order the
  rules are visited.
\<close>

theorem highest_positive_confidence_wins:
  assumes "\<not> cache_hit L c now email"
    and "ShouldIgnoreSender (config c) (From email) = Some False"
    and "ShouldIgnoreSubject (config c) (Subject email) = Some False"
    and "(category, rule) \<in> set (ClassificationRules (config c))"
    and "matchesRule L email rule = Some True"
    and "0 < Confidence rule"
    and "list_all (\<lambda>(category', rule').
           (category', rule') \<noteq> (category, rule) \<longrightarrow>
           matchesRule L email rule' = Some True \<longrightarrow>
           Confidence rule' < Confidence rule) (ClassificationRules (config c))"
  shows "\<exists>r. Classify L c now email =
               Some ((r, None), c\<lparr>cache := (cache c)(getCacheKey L email \<mapsto> r)\<rparr>) \<and>
             Category r = category \<and> Confidence_r r = Confidence rule \<and>
             Tags_r r = Tags rule \<and> Method r = ''rules''"
proof -
  let ?w = "\<lparr>EmailID = ID email, Category = category, Confidence_r = Confidence rule,
             Method = ''rules'', Tags_r = Tags rule,
             Reasoning = ''Matched rule: '' @ Description rule, Timestamp = now\<rparr>"
  have z: "(0.0::real) < Confidence rule" using assms(6) by simp
  have "rules_loop L now email (ClassificationRules (config c)) None 0.0 = Some (Some ?w)"
    using assms(4,5) z assms(7) by (rule rules_loop_winner)
  then have "classifyByRules L c now email = Some ?w"
    by (simp add: classifyByRules_def)
  from Classify_uncached_rules[OF assms(2,3) this] Classify_miss[OF assms(1)]
  show ?thesis by simp
qed

theorem highest_positive_confidence_wins_witness:
  "\<exists>r. Classify L0 (NewClassifier cfg_two db0) 0 from_boss =
         Some ((r, None), (NewClassifier cfg_two db0)\<lparr>cache :=
            (cache (NewClassifier cfg_two db0))(getCacheKey L0 from_boss \<mapsto> r)\<rparr>) \<and>
       Category r = ''invoice'' \<and> Confidence_r r = 0.9 \<and> Tags_r r = [''finance''] \<and>
       Method r = ''rules''"
proof -
  let ?c = "NewClassifier cfg_two db0"
  have h1: "\<not> cache_hit L0 ?c 0 from_boss"
    by (simp add: cache_hit_def NewClassifier_def)
  have h2: "ShouldIgnoreSender (config ?c) (From from_boss) = Some False"
    by (simp add: ShouldIgnoreSender_def NewClassifier_def cfg_two_def rules0_def)
  have h3: "ShouldIgnoreSubject (config ?c) (Subject from_boss) = Some False"
    by (simp add: ShouldIgnoreSubject_def NewClassifier_def cfg_two_def rules0_def)
  have h4: "(''invoice'', rule_money) \<in> set (ClassificationRules (config ?c))"
    by (simp add: NewClassifier_def cfg_two_def)
  have h5: "matchesRule L0 from_boss rule_money = Some True"
    by code_simp
  have h6: "0 < Confidence rule_money"
    by (simp add: rule_money_def)
  have h7: "list_all (\<lambda>(category', rule').
           (category', rule') \<noteq> (''invoice'', rule_money) \<longrightarrow>
           matchesRule L0 from_boss rule' = Some True \<longrightarrow>
           Confidence rule' < Confidence rule_money) (ClassificationRules (config ?c))"
    by (simp add: NewClassifier_def cfg_two_def rule_money_def rule_work_def)
  from highest_positive_confidence_wins[OF h1 h2 h3 h4 h5 h6 h7] show ?thesis
    by (simp add: rule_money_def)
qed

section \<open>Claim C6: an ignored sender is classified as spam\<close>

text \<open>
  C6. When the cache holds no entry of the message that is younger than 24 hours and
  the sender matches a configured ignore pattern (the pattern \<open>*\<close>, a prefix glob, a
  suffix glob or the sender itself, compared in lower case), \<open>Classify\<close> returns
  category \<open>spam\<close>, confidence 0.99, method \<open>rules\<close>, tags \<open>ignored\<close> and \<open>auto\<close>
  and the reasoning \<open>Sender is in ignore list\<close>, and leaves the classifier as it
  was. No classification rule is evaluated: the result is the same for every set of
  rules \<open>rs\<close> put in the place of the configured ones.
\<close>

theorem ignored_sender_is_spam:
  assumes "\<not> cache_hit L c now email"
    and "pattern \<in> set (IgnoreSenders (PriorityRules (config c)))"
    and "ignore_pattern_spec (toLower pattern) (toLower (From email))"
  shows "Classify L c now email =
           Some ((\<lparr>EmailID = ID email, Category = ''spam'', Confidence_r = 0.99,
                   Method = ''rules'', Tags_r = [''ignored'', ''auto''],
                   Reasoning = ''Sender is in ignore list'', Timestamp = now\<rparr>, None), c) \<and>
         Classify L (c\<lparr>config := (config c)\<lparr>ClassificationRules := rs\<rparr>\<rparr>) now email =
           Some ((\<lparr>EmailID = ID email, Category = ''spam'', Confidence_r = 0.99,
                   Method = ''rules'', Tags_r = [''ignored'', ''auto''],
                   Reasoning = ''Sender is in ignore list'', Timestamp = now\<rparr>, None),
                 c\<lparr>config := (config c)\<lparr>ClassificationRules := rs\<rparr>\<rparr>)"
proof -
  let ?c' = "c\<lparr>config := (config c)\<lparr>ClassificationRules := rs\<rparr>\<rparr>"
  have m: "matchPattern (toLower (From email)) (toLower pattern) = Some True"
    using assms(3) by (rule ignore_pattern_spec_match)
  have s: "ShouldIgnoreSender (config c) (From email) = Some True"
    unfolding ShouldIgnoreSender_def using assms(2) m by (rule ignore_sender_loop_hit)
  then have s': "ShouldIgnoreSender (config ?c') (From email) = Some True"
    by (simp add: ShouldIgnoreSender_def)
  have h': "\<not> cache_hit L ?c' now email"
    using assms(1) by (simp add: cache_hit_def)
  show ?thesis
    using Classify_miss[OF assms(1)] Classify_miss[OF h']
      Classify_uncached_sender[OF s] Classify_uncached_sender[OF s']
    by (simp add: ignored_sender_result_def)
qed

theorem ignored_sender_is_spam_witness:
  "Classify L0 (NewClassifier cfg_marketing db0) 5 promo =
     Some ((\<lparr>EmailID = ''m2'', Category = ''spam'', Confidence_r = 0.99,
             Method = ''rules'', Tags_r = [''ignored'', ''auto''],
             Reasoning = ''Sender is in ignore list'', Timestamp = 5\<rparr>, None),
           NewClassifier cfg_marketing db0)"
proof -
  have h1: "\<not> cache_hit L0 (NewClassifier cfg_marketing db0) 5 promo"
    by (simp add: cache_hit_def NewClassifier_def)
  have h2: "''*@marketing.com'' \<in>
      set (IgnoreSenders (PriorityRules (config (NewClassifier cfg_marketing db0))))"
    by (simp add: NewClassifier_def cfg_marketing_def)
  have h3: "ignore_pattern_spec (toLower ''*@marketing.com'') (toLower (From promo))"
    by code_simp
  from ignored_sender_is_spam[OF h1 h2 h3, of "[]"] show ?thesis
    by (simp add: promo_def)
qed

section \<open>Claim C7: classification never fails\<close>

text \<open>
  C7. \<open>Classify\<close> never returns an error: for every configuration, cache, clock
  reading and message the call returns (it does not panic), and its error result is
  \<open>nil\<close>. A condition with operator \<open>regex\<close> whose pattern does not compile
  evaluates to false, whatever its field.
\<close>

theorem Classify_never_fails:
  "(\<exists>r c'. Classify L c now email = Some ((r, None), c')) \<and>
   (Operator cond = ''regex'' \<and> regexp_Compile L (Value cond) = None \<longrightarrow>
      matchesCondition L email cond = Some False)"
proof
  show "\<exists>r c'. Classify L c now email = Some ((r, None), c')"
    by (rule Classify_total)
  show "Operator cond = ''regex'' \<and> regexp_Compile L (Value cond) = None \<longrightarrow>
      matchesCondition L email cond = Some False"
    by (simp add: matchesCondition_def)
qed

theorem Classify_never_fails_witness:
  "Operator bad_regex = ''regex'' \<and> regexp_Compile L0 (Value bad_regex) = None \<and>
   matchesCondition L0 email0 bad_regex = Some False \<and>
   (\<exists>r c'. Classify L0 (NewClassifier cfg_bad_regex db0) 0 email0 = Some ((r, None), c'))"
proof -
  have h: "Operator bad_regex = ''regex'' \<and> regexp_Compile L0 (Value bad_regex) = None"
    by (simp add: bad_regex_def L0_def)
  from Classify_never_fails[of L0 "NewClassifier cfg_bad_regex db0" 0 email0 bad_regex] h
  show ?thesis by blast
qed

section \<open>Claim C8: the fallback heuristics\<close>

text \<open>
  C8. When the message reaches the fallback (no cache entry younger than 24 hours,
  sender and subject not ignored, no configured rule matches), \<open>Classify\<close> returns
  and caches the result of the heuristics: the category and the confidence are those
  of the first line of the specification's table that matches the lower-cased sender
  or subject, and \<open>personal\<close> with 0.50 when none does. In particular, for the
  subject \<open>Daily Tech News Digest\<close> from \<open>newsletter@techcrunch.com\<close> (with their
  lower-case forms as the library computes them) the result is \<open>newsletters\<close> with
  confidence 0.75.
\<close>

theorem fallback_heuristics:
  assumes "\<not> cache_hit L c now email"
    and "ShouldIgnoreSender (config c) (From email) = Some False"
    and "ShouldIgnoreSubject (config c) (Subject email) = Some False"
    and "list_all (\<lambda>(category, rule). matchesRule L email rule = Some False)
           (ClassificationRules (config c))"
  shows "\<exists>r. Classify L c now email =
               Some ((r, None), c\<lparr>cache := (cache c)(getCacheKey L email \<mapsto> r)\<rparr>) \<and>
             r = defaultClassification L now email \<and>
             (Category r, Confidence_r r) =
               first_match (strings_ToLower L (From email))
                 (strings_ToLower L (Subject email)) heuristic_table \<and>
             (strings_ToLower L (From email) = ''newsletter@techcrunch.com'' \<and>
              strings_ToLower L (Subject email) = ''daily tech news digest'' \<longrightarrow>
              Category r = ''newsletters'' \<and> Confidence_r r = 0.75)"
proof -
  let ?r = "defaultClassification L now email"
  have "rules_loop L now email (ClassificationRules (config c)) None 0.0 = Some None"
    using assms(4) by (rule rules_loop_none)
  then have "classifyByRules L c now email = Some ?r"
    by (simp add: classifyByRules_def)
  from Classify_uncached_rules[OF assms(2,3) this] Classify_miss[OF assms(1)]
  have 1: "Classify L c now email =
      Some ((?r, None), c\<lparr>cache := (cache c)(getCacheKey L email \<mapsto> ?r)\<rparr>)"
    by simp
  have 2: "(Category ?r, Confidence_r ?r) =
      first_match (strings_ToLower L (From email)) (strings_ToLower L (Subject email))
        heuristic_table"
    by (rule defaultClassification_first_match)
  have 3: "strings_ToLower L (From email) = ''newsletter@techcrunch.com'' \<and>
      strings_ToLower L (Subject email) = ''daily tech news digest'' \<longrightarrow>
      Category ?r = ''newsletters'' \<and> Confidence_r ?r = 0.75"
  proof
    assume a: "strings_ToLower L (From email) = ''newsletter@techcrunch.com'' \<and>
      strings_ToLower L (Subject email) = ''daily tech news digest''"
    have "first_match ''newsletter@techcrunch.com'' ''daily tech news digest''
            heuristic_table = (''newsletters'', 0.75)"
      by code_simp
    with 2 a show "Category ?r = ''newsletters'' \<and> Confidence_r ?r = 0.75" by simp
  qed
  from 1 2 3 show ?thesis by blast
qed

theorem fallback_heuristics_witness:
  "Category (defaultClassification L0 7 email0) = ''newsletters'' \<and>
   Confidence_r (defaultClassification L0 7 email0) = 0.75 \<and>
   Classify L0 (NewClassifier cfg_plain db0) 7 email0 =
     Some ((defaultClassification L0 7 email0, None),
           (NewClassifier cfg_plain db0)\<lparr>cache :=
              (cache (NewClassifier cfg_plain db0))(getCacheKey L0 email0 \<mapsto>
                 defaultClassification L0 7 email0)\<rparr>)"
proof -
  let ?c = "NewClassifier cfg_plain db0"
  have h1: "\<not> cache_hit L0 ?c 7 email0"
    by (simp add: cache_hit_def NewClassifier_def)
  have h2: "ShouldIgnoreSender (config ?c) (From email0) = Some False"
    by (simp add: ShouldIgnoreSender_def NewClassifier_def cfg_plain_def rules0_def)
  have h3: "ShouldIgnoreSubject (config ?c) (Subject email0) = Some False"
    by (simp add: ShouldIgnoreSubject_def NewClassifier_def cfg_plain_def rules0_def)
  have h4: "list_all (\<lambda>(category, rule). matchesRule L0 email0 rule = Some False)
           (ClassificationRules (config ?c))"
    by (simp add: NewClassifier_def cfg_plain_def)
  have l1: "strings_ToLower L0 (From email0) = ''newsletter@techcrunch.com''"
    by code_simp
  have l2: "strings_ToLower L0 (Subject email0) = ''daily tech news digest''"
    by code_simp
  from fallback_heuristics[OF h1 h2 h3 h4] l1 l2 show ?thesis by auto
qed

section \<open>Claim C9: the ignore paths do not write the cache\<close>

text \<open>
  C9. \<open>Classify\<close> changes the classifier only by storing its result in the cache under
  the key of the message, and only on the path through the rules and heuristics (no
  cache hit, sender and subject not ignored). When a call at time \<open>t1\<close> returns through
  the sender or subject short-circuit, the classifier is returned unchanged, and a
  second call at a later time \<open>t2\<close> finds no cache entry either and computes the
  result again: the same fields with the timestamp \<open>t2\<close>.
\<close>

theorem ignore_paths_do_not_cache:
  "(Classify L c now email = Some ((r, e), c') \<longrightarrow>
      c' = c \<or>
      (c' = c\<lparr>cache := (cache c)(getCacheKey L email \<mapsto> r)\<rparr> \<and>
       \<not> cache_hit L c now email \<and>
       ShouldIgnoreSender (config c) (From email) = Some False \<and>
       ShouldIgnoreSubject (config c) (Subject email) = Some False)) \<and>
   (\<not> cache_hit L c t1 email \<and>
    (ShouldIgnoreSender (config c) (From email) = Some True \<or>
     ShouldIgnoreSubject (config c) (Subject email) = Some True) \<and> t1 \<le> t2 \<longrightarrow>
      (\<exists>r1. Classify L c t1 email = Some ((r1, None), c) \<and> Timestamp r1 = t1 \<and>
            \<not> cache_hit L c t2 email \<and>
            Classify L c t2 email = Some ((r1\<lparr>Timestamp := t2\<rparr>, None), c)))"
proof (intro conjI impI)
  assume "Classify L c now email = Some ((r, e), c')"
  then show "c' = c \<or>
      (c' = c\<lparr>cache := (cache c)(getCacheKey L email \<mapsto> r)\<rparr> \<and>
       \<not> cache_hit L c now email \<and>
       ShouldIgnoreSender (config c) (From email) = Some False \<and>
       ShouldIgnoreSubject (config c) (Subject email) = Some False)"
    by (rule Classify_frame)
next
  assume h: "\<not> cache_hit L c t1 email \<and>
    (ShouldIgnoreSender (config c) (From email) = Some True \<or>
     ShouldIgnoreSubject (config c) (Subject email) = Some True) \<and> t1 \<le> t2"
  then have m1: "\<not> cache_hit L c t1 email" and m2: "\<not> cache_hit L c t2 email"
    using cache_hit_later by blast+
  obtain a where a: "ShouldIgnoreSender (config c) (From email) = Some a"
    using ShouldIgnoreSender_total by blast
  show "\<exists>r1. Classify L c t1 email = Some ((r1, None), c) \<and> Timestamp r1 = t1 \<and>
            \<not> cache_hit L c t2 email \<and>
            Classify L c t2 email = Some ((r1\<lparr>Timestamp := t2\<rparr>, None), c)"
  proof (cases a)
    case True
    with a have s: "ShouldIgnoreSender (config c) (From email) = Some True" by simp
    show ?thesis
      using Classify_miss[OF m1] Classify_miss[OF m2] m2
        Classify_uncached_sender[OF s, of L]
      by (simp add: ignored_sender_result_def)
  next
    case False
    with a h have s: "ShouldIgnoreSender (config c) (From email) = Some False"
      and u: "ShouldIgnoreSubject (config c) (Subject email) = Some True" by auto
    show ?thesis
      using Classify_miss[OF m1] Classify_miss[OF m2] m2
        Classify_uncached_subject[OF s u, of L]
      by simp
  qed
qed

theorem ignore_paths_do_not_cache_witness:
  "(\<exists>r1. Classify L0 c_marketing 5 promo = Some ((r1, None), c_marketing) \<and>
         Timestamp r1 = 5 \<and> \<not> cache_hit L0 c_marketing 6 promo \<and>
         Classify L0 c_marketing 6 promo = Some ((r1\<lparr>Timestamp := 6\<rparr>, None), c_marketing)) \<and>
   \<not> cache_hit L0 (NewClassifier cfg_plain db0) 7 email0 \<and>
   ShouldIgnoreSender (config (NewClassifier cfg_plain db0)) (From email0) = Some False \<and>
   ShouldIgnoreSubject (config (NewClassifier cfg_plain db0)) (Subject email0) = Some False"
proof -
  have h: "\<not> cache_hit L0 c_marketing 5 promo \<and>
    (ShouldIgnoreSender (config c_marketing) (From promo) = Some True \<or>
     ShouldIgnoreSubject (config c_marketing) (Subject promo) = Some True) \<and> (5::int) \<le> 6"
    using marketing_ignored marketing_miss by simp
  let ?c = "NewClassifier cfg_plain db0"
  let ?r = "defaultClassification L0 7 email0"
  let ?c' = "?c\<lparr>cache := (cache ?c)(getCacheKey L0 email0 \<mapsto> ?r)\<rparr>"
  have "cache ?c' (getCacheKey L0 email0) \<noteq> cache ?c (getCacheKey L0 email0)"
    by (simp add: NewClassifier_def)
  then have ne: "?c' \<noteq> ?c" by metis
  from ignore_paths_do_not_cache[where L = L0 and c = c_marketing and email = promo
      and ?t1.0 = 5 and ?t2.0 = 6] h
  have 1: "\<exists>r1. Classify L0 c_marketing 5 promo = Some ((r1, None), c_marketing) \<and>
         Timestamp r1 = 5 \<and> \<not> cache_hit L0 c_marketing 6 promo \<and>
         Classify L0 c_marketing 6 promo = Some ((r1\<lparr>Timestamp := 6\<rparr>, None), c_marketing)"
    by blast
  from ignore_paths_do_not_cache[where L = L0 and c = ?c and now = 7 and email = email0
      and r = ?r and e = None and c' = ?c'] plain_classify[of 7] ne
  have 2: "\<not> cache_hit L0 ?c 7 email0 \<and>
   ShouldIgnoreSender (config ?c) (From email0) = Some False \<and>
   ShouldIgnoreSubject (config ?c) (Subject email0) = Some False"
    by blast
  from 1 2 show ?thesis by blast
qed

section \<open>Claim C10: feedback does not touch the cache\<close>

text \<open>
  C10. \<open>LearnFromFeedback\<close> returns the classifier with at most its store changed:
  the configuration and the cache are the ones it was called with. So when the cache
  holds an entry of a message that is younger than 24 hours at the time of a later
  \<open>Classify\<close>, that call still returns the cached result, with its old category,
  whatever category the feedback gave.
\<close>

theorem feedback_leaves_cache:
  "(\<exists>d. snd (LearnFromFeedback c now emailID correctCategory) = c\<lparr>db := d\<rparr>) \<and>
   cache (snd (LearnFromFeedback c now emailID correctCategory)) = cache c \<and>
   (cache c (getCacheKey L email) = Some cached \<and> Since t (Timestamp cached) < 24 * Hour \<longrightarrow>
      Classify L (snd (LearnFromFeedback c now emailID correctCategory)) t email =
        Some ((cached, None), snd (LearnFromFeedback c now emailID correctCategory)))"
proof -
  have 1: "\<exists>d. snd (LearnFromFeedback c now emailID correctCategory) = c\<lparr>db := d\<rparr>"
    by (auto simp: LearnFromFeedback_def SaveClassification_def Let_def split: prod.splits)
  then have 2: "cache (snd (LearnFromFeedback c now emailID correctCategory)) = cache c"
    by auto
  have 3: "cache c (getCacheKey L email) = Some cached \<and>
      Since t (Timestamp cached) < 24 * Hour \<longrightarrow>
      Classify L (snd (LearnFromFeedback c now emailID correctCategory)) t email =
        Some ((cached, None), snd (LearnFromFeedback c now emailID correctCategory))"
    using Classify_hit[of "snd (LearnFromFeedback c now emailID correctCategory)" L email cached t] 2
    by simp
  from 1 2 3 show ?thesis by blast
qed

theorem feedback_leaves_cache_witness:
  "Classify L0 (snd (LearnFromFeedback c_cached 10 ''m1'' ''work'')) 20 email0 =
     Some ((cached0, None), snd (LearnFromFeedback c_cached 10 ''m1'' ''work'')) \<and>
   Category cached0 = ''newsletters''"
proof -
  have h: "cache c_cached (getCacheKey L0 email0) = Some cached0 \<and>
      Since 20 (Timestamp cached0) < 24 * Hour"
    by (simp add: c_cached_def cached0_def Since_def minDuration_def maxDuration_def Hour_def)
  from feedback_leaves_cache[of c_cached 10 "''m1''" "''work''" L0 email0 cached0 20] h
  show ?thesis by (simp add: cached0_def)
qed

end
